theory Spec2Isabelle
  imports Main "HOL-Library.Multiset"
begin

section \<open>Batch orchestration of page transformations\<close>

text \<open>
  A shallow embedding of \<^verbatim>\<open>src/services/colorize.ts\<close> (the chained, reference-based
  batcher \<^verbatim>\<open>processColorization\<close>) and of \<^verbatim>\<open>src/services/translate.ts\<close> (the flat
  batcher \<^verbatim>\<open>processTranslation\<close>).

  \<^verbatim>\<open>colorize.ts\<close> holds two revisions of the module, one after the other; the model is
  of the first one (lines 1 to 183), in which every page reports its completion as soon as
  its own request settles. The call \<^verbatim>\<open>debugLogger.startSession()\<close> that opens both services
  only logs and is left out.

  JavaScript numbers that count pages and batches are modelled as \<^typ>\<open>int\<close> (they are
  integer valued far below \<open>2^53\<close>); a rejected promise or a thrown exception is the
  \<open>Inl\<close> of a sum; the caller's callbacks and the remote call are recorded in a list of
  events. The tasks of a batch run concurrently: the events of one task are recorded
  together, task after task in the order the tasks settle, which is one of the
  interleavings the runtime allows.
\<close>

subsection \<open>Values\<close>

text \<open>A thrown \<^verbatim>\<open>Error\<close> with its message.\<close>

datatype error = Error string

text \<open>\<^verbatim>\<open>createTextPart(text)\<close> and \<^verbatim>\<open>createImagePart(base64, mimeType)\<close>.\<close>

datatype content_part = TextPart string | ImagePart string string

text \<open>
  What the outside observes of a run: \<^verbatim>\<open>onPageProcessing(indices)\<close>,
  \<^verbatim>\<open>callGeminiImageAPI(apiKey, contents, resolution, requestId)\<close> and
  \<^verbatim>\<open>onPageComplete({...results[0], index})\<close>; \<open>'r\<close> is the type of one item of the list the
  remote call returns.
\<close>

datatype 'r event =
    PageProcessing "int list"
  | RemoteCall string "content_part list" string string
  | PageComplete 'r int

text \<open>
  How the promise a run returns stands after a number of loop iterations: still pending,
  resolved, or rejected with an error.
\<close>

datatype outcome = Pending | Resolved | Rejected error

text \<open>\<^verbatim>\<open>ProcessingConfig\<close>, and \<^verbatim>\<open>interface TranslateConfig extends ProcessingConfig\<close>.\<close>

record processing_config =
  apiKey :: string
  batchSize :: int
  resolution :: string

record translate_config = processing_config +
  fromLanguage :: string
  toLanguage :: string

text \<open>
  The functions imported from \<^verbatim>\<open>./core\<close> and the runtime, none of which is part of the two
  services: they are parameters of the model. A file argument is \<open>None\<close> where JavaScript
  passes \<^verbatim>\<open>undefined\<close> (an index outside \<^verbatim>\<open>files\<close>). \<open>dateNow p\<close> is the reading of
  \<^verbatim>\<open>Date.now()\<close> when the task of page \<open>p\<close> builds its request identifier, and
  \<open>settleTime p\<close> is the moment the task of page \<open>p\<close> settles: the tasks of a batch run
  concurrently and settle in any order.
\<close>

record ('f, 'r) env =
  fileToBase64 :: "'f option \<Rightarrow> error + string"
  getMimeType :: "'f option \<Rightarrow> error + string"
  getImageDimensions :: "'f option \<Rightarrow> error + int \<times> int"
  formatAspectRatioForPrompt :: "int \<Rightarrow> int \<Rightarrow> string"
  formatResolution :: "string \<Rightarrow> string"
  callGeminiImageAPI :: "string \<Rightarrow> content_part list \<Rightarrow> string \<Rightarrow> string \<Rightarrow> error + 'r list"
  dateNow :: "int \<Rightarrow> int"
  settleTime :: "int \<Rightarrow> nat"

subsection \<open>JavaScript primitives\<close>

text \<open>A number inside a template literal: its decimal digits, with a sign when negative.\<close>

fun digits :: "nat \<Rightarrow> string" where
  "digits n =
     (if n < 10 then [''0123456789'' ! n]
      else digits (n div 10) @ [''0123456789'' ! (n mod 10)])"

declare digits.simps [simp del]

definition numberToString :: "int \<Rightarrow> string" where
  "numberToString i = (if i < 0 then ''-'' @ digits (nat (- i)) else digits (nat i))"

text \<open>\<^verbatim>\<open>files[index]\<close>: \<^verbatim>\<open>undefined\<close> outside the array.\<close>

definition fileAt :: "'f list \<Rightarrow> int \<Rightarrow> 'f option" where
  "fileAt files i = (if 0 \<le> i \<and> i < int (length files) then Some (files ! nat i) else None)"

text \<open>
  \<^verbatim>\<open>Array.from({ length: n }, (_, i) => start + i)\<close>: a length below zero gives the empty
  array.
\<close>

definition arrayFrom :: "int \<Rightarrow> int \<Rightarrow> int list" where
  "arrayFrom n start = map (\<lambda>i. start + int i) [0..<nat n]"

text \<open>
  The order in which the tasks of a batch settle: by their settle time. Every permutation
  of a batch is the order of some \<open>settleTime\<close>.
\<close>

definition settleOrder :: "('f, 'r) env \<Rightarrow> int list \<Rightarrow> int list" where
  "settleOrder env batchIndices = sort_key (settleTime env) batchIndices"

text \<open>
  \<^verbatim>\<open>await Promise.all(promises)\<close>, the tasks given in the order they settle, each one
  a transformer of the state its callbacks write to. No task is cancelled when another one
  rejects, so all of them run; the rejection, if any, is the error of the first task that
  rejected.
\<close>

fun promiseAll :: "(int \<Rightarrow> 's \<Rightarrow> (error + 'a) \<times> 's) \<Rightarrow> int list \<Rightarrow> 's \<Rightarrow> error option \<times> 's" where
  "promiseAll task [] st = (None, st)"
| "promiseAll task (p # ps) st =
     (case task p st of
        (Inl e, st1) \<Rightarrow> (Some e, snd (promiseAll task ps st1))
      | (Inr v, st1) \<Rightarrow> promiseAll task ps st1)"

text \<open>The error \<^verbatim>\<open>Promise.all\<close> rejects with, from the results of the tasks in settle order.\<close>

fun firstRejection :: "(error + 'a) list \<Rightarrow> error option" where
  "firstRejection [] = None"
| "firstRejection (Inl e # rs) = Some e"
| "firstRejection (Inr v # rs) = firstRejection rs"

text \<open>The page-index lists of the \<^verbatim>\<open>onPageProcessing\<close> notifications of a trace, in order.\<close>

fun batches :: "'r event list \<Rightarrow> int list list" where
  "batches [] = []"
| "batches (PageProcessing indices # evs) = indices # batches evs"
| "batches (RemoteCall k c r i # evs) = batches evs"
| "batches (PageComplete x p # evs) = batches evs"

text \<open>The content sequences submitted to the remote call in a trace, in order.\<close>

fun submitted :: "'r event list \<Rightarrow> content_part list list" where
  "submitted [] = []"
| "submitted (PageProcessing indices # evs) = submitted evs"
| "submitted (RemoteCall k c r i # evs) = c # submitted evs"
| "submitted (PageComplete x p # evs) = submitted evs"

subsection \<open>Colorization: \<^verbatim>\<open>colorize.ts\<close>\<close>

definition getColorizationPrompt :: "int \<Rightarrow> string \<Rightarrow> string" where
  "getColorizationPrompt refPageCount aspectRatioStr =
     (let refPages =
        (if refPageCount > 0
         then ''the '' @ numberToString refPageCount @ '' reference image(s) attached above''
         else ''no reference images'')
      in ''Colorize the manga page below. Refer to '' @ refPages @
         '' to maintain consistency in character eye color, skin color, hair color, and clothing color.\<newline>\<newline>COLORING STYLE REQUIREMENTS:\<newline>- Apply vibrant, rich, and diverse colors throughout the entire image.\<newline>- Do NOT leave any area uncolored - fill every part with appropriate colors including backgrounds, objects, and small details.\<newline>- Use a colorful and visually appealing palette that brings the manga to life.\<newline>- Add depth and dimension with shading and highlights where appropriate.\<newline>- Make the coloring look professional and polished like a published color manga.\<newline>\<newline>CONSISTENCY REQUIREMENTS:\<newline>- Maintain consistency for the same character, but if the character is wearing new clothing, draw them with appropriate different clothing.\<newline>- Maintain cosmetic features (eye color, hair color, skin tone) consistently for each character across all pages.\<newline>- Maintain consistency in background colors and object colors when they reappear.\<newline>- Color different characters with distinct colors, but the same character must be colored consistently.\<newline>\<newline>IMAGE REQUIREMENTS:\<newline>- The original image size is ''
         @ aspectRatioStr @
         ''. Make image which has EXACTLY SAME ratio and layout with original one.\<newline>- Preserve speech balloons, onomatopoeia, backgrounds, grids, and all structural elements.\<newline>- Do not modify or delete any text - keep all text exactly as is.\<newline>- Do not change character expressions or gestures - only apply colors.\<newline>- Color each panel's scene exactly as shown - do not add different scenes, modify scenes, or remove scenes.\<newline>\<newline>Colorize the following image:'')"

text \<open>
  The loop of \<^verbatim>\<open>buildSinglePageRequest\<close> over the reference indices. A reference whose
  image is \<^verbatim>\<open>null\<close> or the empty string is falsy and is skipped.
\<close>

fun addReferenceImages :: "(int \<Rightarrow> string option) \<Rightarrow> int list \<Rightarrow> content_part list \<Rightarrow> content_part list" where
  "addReferenceImages getProcessedImageBase64 [] contents = contents"
| "addReferenceImages getProcessedImageBase64 (refIdx # rest) contents =
     addReferenceImages getProcessedImageBase64 rest
       (case getProcessedImageBase64 refIdx of
          None \<Rightarrow> contents
        | Some refBase64 \<Rightarrow>
            if refBase64 = [] then contents
            else contents @
              [TextPart (''This is reference page '' @ numberToString (refIdx + 1) @ '' (already colorized):''),
               ImagePart refBase64 ''image/png''])"

definition buildSinglePageRequest ::
  "('f, 'r) env \<Rightarrow> int \<Rightarrow> 'f option \<Rightarrow> int list \<Rightarrow> (int \<Rightarrow> string option) \<Rightarrow> error + content_part list" where
  "buildSinglePageRequest env pageIndex file refIndices getProcessedImageBase64 =
     (let contents = addReferenceImages getProcessedImageBase64 refIndices [] in
      case fileToBase64 env file of
        Inl e \<Rightarrow> Inl e
      | Inr base64 \<Rightarrow>
         (case getMimeType env file of
            Inl e \<Rightarrow> Inl e
          | Inr mimeType \<Rightarrow>
             (let contents = contents @
                    [TextPart (''Colorize page '' @ numberToString (pageIndex + 1) @ '':''),
                     ImagePart base64 mimeType] in
              case getImageDimensions env file of
                Inl e \<Rightarrow> Inl e
              | Inr (width, height) \<Rightarrow>
                  Inr (contents @
                    [TextPart (getColorizationPrompt (int (length refIndices))
                       (formatAspectRatioForPrompt env width height))]))))"

text \<open>
  The state of \<^verbatim>\<open>processColorization\<close>: its three variables and the events so far.
\<close>

record 'r colorize_state =
  completedIndices :: "int list"
  currentIndex :: int
  batchNumber :: int
  trace :: "'r event list"

text \<open>The plan of one iteration, from the variables at its start.\<close>

definition batchCount :: "processing_config \<Rightarrow> int \<Rightarrow> 'r colorize_state \<Rightarrow> int" where
  "batchCount config totalPages s =
     (let completedCount = int (length (completedIndices s));
          targetBatchCount =
            (if batchNumber s = 1 then 1
             else min (batchNumber s) (min (batchSize config) completedCount))
      in min targetBatchCount (totalPages - currentIndex s))"

definition batchIndices :: "processing_config \<Rightarrow> int \<Rightarrow> 'r colorize_state \<Rightarrow> int list" where
  "batchIndices config totalPages s = arrayFrom (batchCount config totalPages s) (currentIndex s)"

definition refIndices :: "processing_config \<Rightarrow> 'r colorize_state \<Rightarrow> int list" where
  "refIndices config s =
     (let completedCount = int (length (completedIndices s));
          refCount = min (batchSize config) completedCount;
          refStartIndex = max 0 (int (length (completedIndices s)) - refCount)
      in drop (nat refStartIndex) (completedIndices s))"

text \<open>
  The task of one page of a batch (the \<^verbatim>\<open>async (pageIndex) => ...\<close> mapped over the
  batch). It writes to the events and to \<^verbatim>\<open>batchCompletedIndices\<close>.
\<close>

definition requestPromise ::
  "('f, 'r) env \<Rightarrow> 'f list \<Rightarrow> processing_config \<Rightarrow> (int \<Rightarrow> string option) \<Rightarrow> int \<Rightarrow> int list \<Rightarrow>
   int \<Rightarrow> 'r event list \<times> int list \<Rightarrow> (error + int \<times> 'r list) \<times> ('r event list \<times> int list)" where
  "requestPromise env files config getProcessedImageBase64 batchNo refs pageIndex st =
     (case buildSinglePageRequest env pageIndex (fileAt files pageIndex) refs getProcessedImageBase64 of
        Inl e \<Rightarrow> (Inl e, st)
      | Inr contents \<Rightarrow>
         (let requestId = ''colorize_batch'' @ numberToString batchNo @ ''_page'' @
                numberToString (pageIndex + 1) @ ''_'' @ numberToString (dateNow env pageIndex);
              st1 = (fst st @ [RemoteCall (apiKey config) contents
                       (formatResolution env (resolution config)) requestId], snd st)
          in case callGeminiImageAPI env (apiKey config) contents
                    (formatResolution env (resolution config)) requestId of
               Inl e \<Rightarrow> (Inl e, st1)
             | Inr results \<Rightarrow>
                 if length results > 0
                 then (Inr (pageIndex, results),
                       (fst st1 @ [PageComplete (hd results) pageIndex], snd st1 @ [pageIndex]))
                 else (Inr (pageIndex, results), st1)))"

text \<open>
  What the task of a page settles with, the events it adds and what it pushes to
  \<^verbatim>\<open>batchCompletedIndices\<close>: none of them depends on the state the task starts in.
\<close>

definition requestOutcome ::
  "('f, 'r) env \<Rightarrow> 'f list \<Rightarrow> processing_config \<Rightarrow> (int \<Rightarrow> string option) \<Rightarrow> int \<Rightarrow> int list \<Rightarrow>
   int \<Rightarrow> error + int \<times> 'r list" where
  "requestOutcome env files config getProcessedImageBase64 batchNo refs pageIndex =
     fst (requestPromise env files config getProcessedImageBase64 batchNo refs pageIndex ([], []))"

definition requestEvents ::
  "('f, 'r) env \<Rightarrow> 'f list \<Rightarrow> processing_config \<Rightarrow> (int \<Rightarrow> string option) \<Rightarrow> int \<Rightarrow> int list \<Rightarrow>
   int \<Rightarrow> 'r event list" where
  "requestEvents env files config getProcessedImageBase64 batchNo refs pageIndex =
     fst (snd (requestPromise env files config getProcessedImageBase64 batchNo refs pageIndex ([], [])))"

definition requestPushes ::
  "('f, 'r) env \<Rightarrow> 'f list \<Rightarrow> processing_config \<Rightarrow> (int \<Rightarrow> string option) \<Rightarrow> int \<Rightarrow> int list \<Rightarrow>
   int \<Rightarrow> int list" where
  "requestPushes env files config getProcessedImageBase64 batchNo refs pageIndex =
     snd (snd (requestPromise env files config getProcessedImageBase64 batchNo refs pageIndex ([], [])))"

text \<open>One iteration of the \<^verbatim>\<open>while\<close> loop; \<open>Some e\<close> when the awaited batch rejects.\<close>

definition colorizeBatch ::
  "('f, 'r) env \<Rightarrow> 'f list \<Rightarrow> processing_config \<Rightarrow> (int \<Rightarrow> string option) \<Rightarrow>
   'r colorize_state \<Rightarrow> error option \<times> 'r colorize_state" where
  "colorizeBatch env files config getProcessedImageBase64 s =
     (let totalPages = int (length files);
          indices = batchIndices config totalPages s;
          refs = refIndices config s
      in case promiseAll
                (requestPromise env files config getProcessedImageBase64 (batchNumber s) refs)
                (settleOrder env indices) (trace s @ [PageProcessing indices], []) of
           (Some e, (tr, batchCompletedIndices)) \<Rightarrow> (Some e, s\<lparr>trace := tr\<rparr>)
         | (None, (tr, batchCompletedIndices)) \<Rightarrow>
             (None,
              s\<lparr>completedIndices := completedIndices s @ sort batchCompletedIndices,
                currentIndex := currentIndex s + batchCount config totalPages s,
                batchNumber := batchNumber s + 1,
                trace := tr\<rparr>))"

text \<open>
  What holds of the variables of \<^verbatim>\<open>processColorization\<close> at the start of every iteration.
\<close>

definition colorizeInv ::
  "('f, 'r) env \<Rightarrow> 'f list \<Rightarrow> processing_config \<Rightarrow> (int \<Rightarrow> string option) \<Rightarrow>
   'r colorize_state \<Rightarrow> bool" where
  "colorizeInv env files config g s \<longleftrightarrow>
     1 \<le> batchNumber s \<and>
     sorted (completedIndices s) \<and>
     distinct (completedIndices s) \<and>
     (batchNumber s = 1 \<longrightarrow> completedIndices s = [] \<and> currentIndex s = 0) \<and>
     (0 \<le> batchSize config \<longrightarrow> (\<forall>i \<in> set (completedIndices s). i < currentIndex s)) \<and>
     (batchSize config < 0 \<longrightarrow> set (completedIndices s) \<subseteq> {0}) \<and>
     (\<forall>i \<in> set (completedIndices s). \<exists>bn refs x xs.
        requestOutcome env files config g bn refs i = Inr (i, x # xs) \<and>
        PageComplete x i \<in> set (trace s))"

text \<open>
  The \<^verbatim>\<open>while (currentIndex < totalPages)\<close> loop, run for at most the given number of
  iterations: \<open>Pending\<close> with the state reached when the loop would go on.
\<close>

fun colorizeLoop ::
  "nat \<Rightarrow> ('f, 'r) env \<Rightarrow> 'f list \<Rightarrow> processing_config \<Rightarrow> (int \<Rightarrow> string option) \<Rightarrow>
   'r colorize_state \<Rightarrow> outcome \<times> 'r colorize_state" where
  "colorizeLoop 0 env files config getProcessedImageBase64 s =
     (if currentIndex s < int (length files) then (Pending, s) else (Resolved, s))"
| "colorizeLoop (Suc n) env files config getProcessedImageBase64 s =
     (if currentIndex s < int (length files)
      then (case colorizeBatch env files config getProcessedImageBase64 s of
              (Some e, s') \<Rightarrow> (Rejected e, s')
            | (None, s') \<Rightarrow> colorizeLoop n env files config getProcessedImageBase64 s')
      else (Resolved, s))"

definition processColorization ::
  "nat \<Rightarrow> ('f, 'r) env \<Rightarrow> 'f list \<Rightarrow> processing_config \<Rightarrow> (int \<Rightarrow> string option) \<Rightarrow>
   outcome \<times> 'r colorize_state" where
  "processColorization n env files config getProcessedImageBase64 =
     colorizeLoop n env files config getProcessedImageBase64
       \<lparr>completedIndices = [], currentIndex = 0, batchNumber = 1, trace = []\<rparr>"

subsection \<open>Translation: \<^verbatim>\<open>translate.ts\<close>\<close>

definition getTranslationPrompt :: "string \<Rightarrow> string \<Rightarrow> string" where
  "getTranslationPrompt fromLang toLang =
     ''Translate this manga page from '' @ fromLang @ '' to '' @ toLang @
     ''. Maintain all other characters, backgrounds, speech balloon's shape, grids and manga structure. Make image which has EXACTLY SAME ratio and layout with original one. You have to translate speech balloon's text, onomatopoeia handwritten text, and all other texts which are not ''
     @ toLang @ ''.''"

definition translateSinglePage ::
  "('f, 'r) env \<Rightarrow> 'f option \<Rightarrow> translate_config \<Rightarrow> int \<Rightarrow> 'r event list \<Rightarrow>
   (error + 'r \<times> int) \<times> 'r event list" where
  "translateSinglePage env file config pageIndex tr =
     (case fileToBase64 env file of
        Inl e \<Rightarrow> (Inl e, tr)
      | Inr base64 \<Rightarrow>
         (case getMimeType env file of
            Inl e \<Rightarrow> (Inl e, tr)
          | Inr mimeType \<Rightarrow>
             (let prompt = getTranslationPrompt (fromLanguage config) (toLanguage config);
                  contents = [TextPart prompt, ImagePart base64 mimeType];
                  requestId = ''translate_page_'' @ numberToString pageIndex @ ''_'' @
                    numberToString (dateNow env pageIndex);
                  tr1 = tr @ [RemoteCall (apiKey config) contents
                          (formatResolution env (resolution config)) requestId]
              in case callGeminiImageAPI env (apiKey config) contents
                        (formatResolution env (resolution config)) requestId of
                   Inl e \<Rightarrow> (Inl e, tr1)
                 | Inr results \<Rightarrow>
                     if length results = 0
                     then (Inl (Error (''No image result for page '' @ numberToString (pageIndex + 1))), tr1)
                     else (Inr (hd results, pageIndex), tr1))))"

text \<open>
  The task of one page of a batch:
  \<^verbatim>\<open>translateSinglePage(files[index], config, index).then(result => { onPageComplete(result); return result; })\<close>.
\<close>

definition batchPromise ::
  "('f, 'r) env \<Rightarrow> 'f list \<Rightarrow> translate_config \<Rightarrow> int \<Rightarrow> 'r event list \<Rightarrow>
   (error + 'r \<times> int) \<times> 'r event list" where
  "batchPromise env files config index tr =
     (case translateSinglePage env (fileAt files index) config index tr of
        (Inl e, tr1) \<Rightarrow> (Inl e, tr1)
      | (Inr result, tr1) \<Rightarrow> (Inr result, tr1 @ [PageComplete (fst result) (snd result)]))"

text \<open>What the task of a page settles with and the events it adds.\<close>

definition translateOutcome ::
  "('f, 'r) env \<Rightarrow> 'f list \<Rightarrow> translate_config \<Rightarrow> int \<Rightarrow> error + 'r \<times> int" where
  "translateOutcome env files config index = fst (batchPromise env files config index [])"

definition translateEvents ::
  "('f, 'r) env \<Rightarrow> 'f list \<Rightarrow> translate_config \<Rightarrow> int \<Rightarrow> 'r event list" where
  "translateEvents env files config index = snd (batchPromise env files config index [])"

text \<open>
  The \<^verbatim>\<open>for (batchStart = 0; batchStart < totalPages; batchStart += batchSize)\<close> loop, run for
  at most the given number of iterations. The \<^verbatim>\<open>catch\<close> logs the error and throws it again.
\<close>

definition translateBatchIndices :: "translate_config \<Rightarrow> int \<Rightarrow> int \<Rightarrow> int list" where
  "translateBatchIndices config totalPages batchStart =
     (let batchEnd = min (batchStart + batchSize config) totalPages
      in arrayFrom (batchEnd - batchStart) batchStart)"

fun translateLoop ::
  "nat \<Rightarrow> ('f, 'r) env \<Rightarrow> 'f list \<Rightarrow> translate_config \<Rightarrow> int \<Rightarrow> 'r event list \<Rightarrow>
   outcome \<times> 'r event list" where
  "translateLoop 0 env files config batchStart tr =
     (if batchStart < int (length files) then (Pending, tr) else (Resolved, tr))"
| "translateLoop (Suc n) env files config batchStart tr =
     (if batchStart < int (length files)
      then (let indices = translateBatchIndices config (int (length files)) batchStart
            in case promiseAll (batchPromise env files config) (settleOrder env indices)
                      (tr @ [PageProcessing indices]) of
                 (Some e, tr1) \<Rightarrow> (Rejected e, tr1)
               | (None, tr1) \<Rightarrow>
                   translateLoop n env files config (batchStart + batchSize config) tr1)
      else (Resolved, tr))"

definition processTranslation ::
  "nat \<Rightarrow> ('f, 'r) env \<Rightarrow> 'f list \<Rightarrow> translate_config \<Rightarrow> outcome \<times> 'r event list" where
  "processTranslation n env files config = translateLoop n env files config 0 []"

subsection \<open>A concrete environment\<close>

text \<open>
  Files are their own base64 text, and the text of a file decides what happens to its page:
  the empty file cannot be decoded, the remote call returns no result for the file
  \<open>''empty''\<close>, raises a fault for the file \<open>''fault''\<close> and returns one image for every other
  file. Pages with a higher index settle first.
\<close>

definition demoEnv :: "(string, string) env" where
  "demoEnv =
     \<lparr>fileToBase64 = (\<lambda>f. case f of
          None \<Rightarrow> Inl (Error ''not a file'')
        | Some d \<Rightarrow> if d = [] then Inl (Error ''cannot decode'') else Inr d),
      getMimeType = (\<lambda>f. Inr ''image/jpeg''),
      getImageDimensions = (\<lambda>f. Inr (800, 1200)),
      formatAspectRatioForPrompt = (\<lambda>w h. numberToString w @ ''x'' @ numberToString h),
      formatResolution = (\<lambda>r. r),
      callGeminiImageAPI = (\<lambda>k contents r i.
        if ImagePart ''empty'' ''image/jpeg'' \<in> set contents then Inr []
        else if ImagePart ''fault'' ''image/jpeg'' \<in> set contents then Inl (Error ''remote fault'')
        else Inr [''done'']),
      dateNow = (\<lambda>p. 0),
      settleTime = (\<lambda>p. nat (100 - p))\<rparr>"

definition demoConfig :: processing_config where
  "demoConfig = \<lparr>apiKey = ''key'', batchSize = 4, resolution = ''1K''\<rparr>"

definition demoTranslateConfig :: translate_config where
  "demoTranslateConfig =
     \<lparr>apiKey = ''key'', batchSize = 2, resolution = ''1K'',
      fromLanguage = ''Japanese'', toLanguage = ''English''\<rparr>"

definition demoResolver :: "int \<Rightarrow> string option" where
  "demoResolver i = (if 0 \<le> i then Some ''stored'' else None)"

section \<open>Properties of the model\<close>

subsection \<open>Awaiting a batch\<close>


lemma promiseAll_pure:
  "promiseAll (\<lambda>p st. (r p, upd p st)) ps st = (firstRejection (map r ps), fold upd ps st)"
proof (induction ps arbitrary: st)
  case Nil
  show ?case by simp
next
  case (Cons p ps)
  show ?case
    by (cases "r p") (simp_all add: Cons.IH)
qed

lemma promiseAll_fold:
  assumes "\<And>p st. task p st = (r p, upd p st)"
  shows "promiseAll task ps st = (firstRejection (map r ps), fold upd ps st)"
proof -
  have "task = (\<lambda>p st. (r p, upd p st))"
    by (intro ext) (rule assms)
  then show ?thesis
    by (simp only: promiseAll_pure)
qed

lemma fold_append_both:
  "fold (\<lambda>p st. (fst st @ ev p, snd st @ pu p)) ps st =
     (fst st @ concat (map ev ps), snd st @ concat (map pu ps))"
  by (induction ps arbitrary: st) simp_all

lemma fold_append_one:
  "fold (\<lambda>p tr. tr @ ev p) ps tr = tr @ concat (map ev ps)"
  by (induction ps arbitrary: tr) simp_all

lemma requestPromise_eq:
  "requestPromise env files config g bn refs p st =
     (fst (requestPromise env files config g bn refs p ([], [])),
      (fst st @ fst (snd (requestPromise env files config g bn refs p ([], []))),
       snd st @ snd (snd (requestPromise env files config g bn refs p ([], [])))))"
  by (cases st) (simp add: requestPromise_def Let_def split: sum.splits)

lemma requestPromise_views:
  "requestPromise env files config g bn refs p st =
     (requestOutcome env files config g bn refs p,
      (fst st @ requestEvents env files config g bn refs p,
       snd st @ requestPushes env files config g bn refs p))"
  unfolding requestOutcome_def requestEvents_def requestPushes_def
  by (rule requestPromise_eq)

lemma promiseAll_requestPromise:
  "promiseAll (requestPromise env files config g bn refs) ps st =
     (firstRejection (map (requestOutcome env files config g bn refs) ps),
      (fst st @ concat (map (requestEvents env files config g bn refs) ps),
       snd st @ concat (map (requestPushes env files config g bn refs) ps)))"
  by (simp add: promiseAll_fold [where r = "requestOutcome env files config g bn refs"
        and upd = "\<lambda>p st. (fst st @ requestEvents env files config g bn refs p,
                            snd st @ requestPushes env files config g bn refs p)"]
      requestPromise_views fold_append_both)

lemma colorizeBatch_eq:
  "colorizeBatch env files config g s =
     (let indices = batchIndices config (int (length files)) s;
          order = settleOrder env indices;
          refs = refIndices config s;
          tr = trace s @ PageProcessing indices #
                 concat (map (requestEvents env files config g (batchNumber s) refs) order)
      in case firstRejection (map (requestOutcome env files config g (batchNumber s) refs) order) of
           Some e \<Rightarrow> (Some e, s\<lparr>trace := tr\<rparr>)
         | None \<Rightarrow>
             (None,
              s\<lparr>completedIndices := completedIndices s @
                   sort (concat (map (requestPushes env files config g (batchNumber s) refs) order)),
                currentIndex := currentIndex s + batchCount config (int (length files)) s,
                batchNumber := batchNumber s + 1,
                trace := tr\<rparr>))"
  by (simp add: colorizeBatch_def Let_def promiseAll_requestPromise split: option.splits)

lemma requestPushes_cases:
  "requestPushes env files config g bn refs p =
     (case requestOutcome env files config g bn refs p of
        Inl e \<Rightarrow> []
      | Inr v \<Rightarrow> if snd v = [] then [] else [p])"
  by (simp add: requestPushes_def requestOutcome_def requestPromise_def Let_def split: sum.splits)

lemma batches_append: "batches (xs @ ys) = batches xs @ batches ys"
  by (induction xs rule: batches.induct) simp_all

lemma batches_requestEvents: "batches (requestEvents env files config g bn refs p) = []"
  by (simp add: requestEvents_def requestPromise_def Let_def split: sum.splits)

lemma batches_concat_requestEvents:
  "batches (concat (map (requestEvents env files config g bn refs) ps)) = []"
  by (induction ps) (simp_all add: batches_append batches_requestEvents)

lemma requestEvents_complete:
  "p \<in> set (requestPushes env files config g bn refs q) \<Longrightarrow>
     p = q \<and> (\<exists>x xs.
        requestOutcome env files config g bn refs q = Inr (q, x # xs) \<and>
        PageComplete x p \<in> set (requestEvents env files config g bn refs q))"
  by (auto simp add: requestPushes_def requestEvents_def requestOutcome_def requestPromise_def
      Let_def neq_Nil_conv split: sum.splits if_splits)

lemma set_arrayFrom: "set (arrayFrom n start) = {i. start \<le> i \<and> i < start + n}"
proof -
  have "\<And>i. start \<le> i \<Longrightarrow> i < start + n \<Longrightarrow> i \<in> (\<lambda>k. start + int k) ` {0..<nat n}"
  proof -
    fix i assume "start \<le> i" "i < start + n"
    then have "i = start + int (nat (i - start))" "nat (i - start) \<in> {0..<nat n}"
      by auto
    then show "i \<in> (\<lambda>k. start + int k) ` {0..<nat n}"
      by (rule image_eqI)
  qed
  then show ?thesis
    by (auto simp add: arrayFrom_def)
qed

lemma distinct_arrayFrom: "distinct (arrayFrom n start)"
  by (simp add: arrayFrom_def distinct_map inj_on_def)

lemma set_settleOrder: "set (settleOrder env xs) = set xs"
  by (simp add: settleOrder_def)

lemma distinct_settleOrder: "distinct (settleOrder env xs) = distinct xs"
  by (simp add: settleOrder_def)

lemma requestPushes_if:
  "requestPushes env files config g bn refs p =
     (if requestPushes env files config g bn refs p = [] then [] else [p])"
  by (simp add: requestPushes_cases split: sum.splits)

lemma concat_requestPushes:
  "concat (map (requestPushes env files config g bn refs) ps) =
     filter (\<lambda>q. requestPushes env files config g bn refs q \<noteq> []) ps"
proof (induction ps)
  case Nil
  show ?case by simp
next
  case (Cons p ps)
  show ?case
    using requestPushes_if [of env files config g bn refs p] Cons.IH
    by (cases "requestPushes env files config g bn refs p = []") simp_all
qed

lemma set_batchIndices:
  "set (batchIndices config totalPages s) =
     {i. currentIndex s \<le> i \<and> i < currentIndex s + batchCount config totalPages s}"
  by (simp add: batchIndices_def set_arrayFrom)

lemma batchCount_first:
  "batchNumber s = 1 \<Longrightarrow> batchCount config totalPages s = min 1 (totalPages - currentIndex s)"
  by (simp add: batchCount_def)

lemma batchCount_later:
  "batchNumber s \<noteq> 1 \<Longrightarrow> batchCount config totalPages s =
     min (min (batchNumber s) (min (batchSize config) (int (length (completedIndices s)))))
       (totalPages - currentIndex s)"
  by (simp add: batchCount_def)

lemma colorizeBatch_rejected:
  assumes "colorizeBatch env files config g s = (Some e, s')"
  shows "completedIndices s' = completedIndices s" "currentIndex s' = currentIndex s"
    "batchNumber s' = batchNumber s"
    "trace s' = trace s @ PageProcessing (batchIndices config (int (length files)) s) #
       concat (map (requestEvents env files config g (batchNumber s) (refIndices config s))
         (settleOrder env (batchIndices config (int (length files)) s)))"
    "firstRejection (map (requestOutcome env files config g (batchNumber s) (refIndices config s))
         (settleOrder env (batchIndices config (int (length files)) s))) = Some e"
  using assms by (auto simp add: colorizeBatch_eq Let_def split: option.splits)

lemma colorizeBatch_advanced:
  assumes "colorizeBatch env files config g s = (None, s')"
  shows "completedIndices s' = completedIndices s @
       sort (filter (\<lambda>q. requestPushes env files config g (batchNumber s) (refIndices config s) q \<noteq> [])
         (settleOrder env (batchIndices config (int (length files)) s)))"
    "currentIndex s' = currentIndex s + batchCount config (int (length files)) s"
    "batchNumber s' = batchNumber s + 1"
    "trace s' = trace s @ PageProcessing (batchIndices config (int (length files)) s) #
       concat (map (requestEvents env files config g (batchNumber s) (refIndices config s))
         (settleOrder env (batchIndices config (int (length files)) s)))"
    "firstRejection (map (requestOutcome env files config g (batchNumber s) (refIndices config s))
         (settleOrder env (batchIndices config (int (length files)) s))) = None"
  using assms by (auto simp add: colorizeBatch_eq Let_def concat_requestPushes split: option.splits)

lemma colorizeInv_step:
  assumes inv: "colorizeInv env files config g s"
    and guard: "currentIndex s < int (length files)"
    and step: "colorizeBatch env files config g s = (None, s')"
  shows "colorizeInv env files config g s'"
proof -
  define totalPages where "totalPages = int (length files)"
  define bc where "bc = batchCount config totalPages s"
  define order where "order = settleOrder env (batchIndices config totalPages s)"
  define new where "new = sort (filter
      (\<lambda>q. requestPushes env files config g (batchNumber s) (refIndices config s) q \<noteq> []) order)"
  note adv = colorizeBatch_advanced [OF step, folded totalPages_def, folded order_def, folded new_def bc_def]
  have bn: "1 \<le> batchNumber s"
    and srt: "sorted (completedIndices s)"
    and dst: "distinct (completedIndices s)"
    and first: "batchNumber s = 1 \<Longrightarrow> completedIndices s = [] \<and> currentIndex s = 0"
    and below: "0 \<le> batchSize config \<Longrightarrow> \<forall>i \<in> set (completedIndices s). i < currentIndex s"
    and neg: "batchSize config < 0 \<Longrightarrow> set (completedIndices s) \<subseteq> {0}"
    and calls: "\<forall>i \<in> set (completedIndices s). \<exists>bn refs x xs.
        requestOutcome env files config g bn refs i = Inr (i, x # xs) \<and>
        PageComplete x i \<in> set (trace s)"
    using inv by (simp_all add: colorizeInv_def)
  have set_order: "set order = {i. currentIndex s \<le> i \<and> i < currentIndex s + bc}"
    by (simp add: order_def set_settleOrder set_batchIndices bc_def)
  have dist_order: "distinct order"
    by (simp add: order_def distinct_settleOrder batchIndices_def distinct_arrayFrom)
  have set_new: "set new \<subseteq> {i. currentIndex s \<le> i \<and> i < currentIndex s + bc}"
    using set_order by (auto simp add: new_def)
  have dist_new: "distinct new" and srt_new: "sorted new"
    using dist_order by (simp_all add: new_def)
  have bc_first: "batchNumber s = 1 \<Longrightarrow> bc = 1"
    using guard by (simp add: bc_def batchCount_first totalPages_def)
  have bc_nonneg: "0 \<le> batchSize config \<Longrightarrow> 0 \<le> bc"
    using guard bn by (cases "batchNumber s = 1")
      (simp_all add: bc_def batchCount_first batchCount_later totalPages_def)
  have bc_neg: "batchSize config < 0 \<Longrightarrow> batchNumber s \<noteq> 1 \<Longrightarrow> new = []"
  proof -
    assume "batchSize config < 0" "batchNumber s \<noteq> 1"
    then have "bc < 0"
      by (simp add: bc_def batchCount_later)
    then show "new = []"
      using set_new by (cases new) auto
  qed
  have sep: "\<forall>x \<in> set (completedIndices s). \<forall>y \<in> set new. x < y"
  proof (cases "0 \<le> batchSize config")
    case True
    then show ?thesis using below set_new by fastforce
  next
    case False
    then show ?thesis using first bc_neg by (cases "batchNumber s = 1") auto
  qed
  have c1: "1 \<le> batchNumber s'"
    using bn adv(3) by simp
  have c2: "sorted (completedIndices s')"
    using srt srt_new sep by (auto simp add: adv(1) sorted_append less_imp_le)
  have c3: "distinct (completedIndices s')"
    using dst dist_new sep by (auto simp add: adv(1))
  have c4: "batchNumber s' \<noteq> 1"
    using bn adv(3) by simp
  have c5: "0 \<le> batchSize config \<Longrightarrow> \<forall>i \<in> set (completedIndices s'). i < currentIndex s'"
    using below bc_nonneg set_new by (fastforce simp add: adv(1) adv(2))
  have c6: "batchSize config < 0 \<Longrightarrow> set (completedIndices s') \<subseteq> {0}"
  proof (cases "batchNumber s = 1")
    case True
    assume "batchSize config < 0"
    show ?thesis
      using first [OF True] bc_first [OF True] set_new by (auto simp add: adv(1))
  next
    case False
    assume "batchSize config < 0"
    then show ?thesis
      using neg bc_neg False by (simp add: adv(1))
  qed
  have c7: "\<forall>i \<in> set (completedIndices s'). \<exists>bn refs x xs.
        requestOutcome env files config g bn refs i = Inr (i, x # xs) \<and>
        PageComplete x i \<in> set (trace s')"
  proof
    fix i assume "i \<in> set (completedIndices s')"
    then consider "i \<in> set (completedIndices s)" | "i \<in> set new"
      by (auto simp add: adv(1))
    then show "\<exists>bn refs x xs.
        requestOutcome env files config g bn refs i = Inr (i, x # xs) \<and>
        PageComplete x i \<in> set (trace s')"
    proof cases
      case 1
      with calls obtain bn refs x xs where
        "requestOutcome env files config g bn refs i = Inr (i, x # xs)"
        "PageComplete x i \<in> set (trace s)"
        by blast
      moreover have "set (trace s) \<subseteq> set (trace s')"
        by (auto simp add: adv(4))
      ultimately show ?thesis
        by blast
    next
      case 2
      then have mem: "i \<in> set order"
        and "requestPushes env files config g (batchNumber s) (refIndices config s) i \<noteq> []"
        by (simp_all add: new_def)
      then have "i \<in> set (requestPushes env files config g (batchNumber s) (refIndices config s) i)"
        using requestPushes_if [of env files config g "batchNumber s" "refIndices config s" i]
        by (metis list.set_intros(1))
      from requestEvents_complete [OF this] obtain x xs where
        ev: "requestOutcome env files config g (batchNumber s) (refIndices config s) i = Inr (i, x # xs)"
          "PageComplete x i \<in> set (requestEvents env files config g (batchNumber s) (refIndices config s) i)"
        by blast
      have "set (requestEvents env files config g (batchNumber s) (refIndices config s) i) \<subseteq> set (trace s')"
        using mem by (auto simp add: adv(4))
      with ev show ?thesis by blast
    qed
  qed
  show ?thesis
    unfolding colorizeInv_def using c1 c2 c3 c4 c5 c6 c7 by blast
qed

lemma colorizeInv_rejected:
  assumes "colorizeInv env files config g s" "colorizeBatch env files config g s = (Some e, s')"
  shows "colorizeInv env files config g s'"
proof -
  note rej = colorizeBatch_rejected [OF assms(2)]
  have "set (trace s) \<subseteq> set (trace s')"
    by (auto simp add: rej(4))
  then show ?thesis
    using assms(1) unfolding colorizeInv_def rej(1) rej(2) rej(3) by blast
qed

lemma colorizeInv_loop:
  "colorizeInv env files config g s \<Longrightarrow> colorizeInv env files config g (snd (colorizeLoop n env files config g s))"
proof (induction n arbitrary: s)
  case 0
  then show ?case by simp
next
  case (Suc n)
  show ?case
  proof (cases "colorizeBatch env files config g s")
    case (Pair r s')
    show ?thesis
    proof (cases r)
      case None
      with Pair Suc.prems have "currentIndex s < int (length files) \<Longrightarrow> colorizeInv env files config g s'"
        by (simp add: colorizeInv_step)
      with Pair None Suc show ?thesis
        by simp
    next
      case (Some e)
      with Pair Suc.prems have "colorizeInv env files config g s'"
        by (simp add: colorizeInv_rejected)
      with Pair Some Suc.prems show ?thesis
        by simp
    qed
  qed
qed

lemma colorizeInv_run:
  "colorizeInv env files config g (snd (processColorization n env files config g))"
  unfolding processColorization_def
  by (rule colorizeInv_loop) (simp add: colorizeInv_def)

lemma arrayFrom_upto_nat: "map (\<lambda>i. start + int i) [0..<k] = [start..start + int k - 1]"
proof (induction k)
  case 0
  show ?case by simp
next
  case (Suc k)
  have "[start..start + int (Suc k) - 1] = [start..start + int k - 1] @ [start + int k]"
    using upto_rec2 [of start "start + int k"] by simp
  with Suc show ?case by simp
qed

lemma arrayFrom_upto: "arrayFrom n start = [start..start + n - 1]"
proof (cases "0 \<le> n")
  case True
  then show ?thesis
    using arrayFrom_upto_nat [of start "nat n"] by (simp add: arrayFrom_def)
next
  case False
  then show ?thesis by (simp add: arrayFrom_def)
qed

lemma sorted_arrayFrom: "sorted (arrayFrom n start)"
  by (simp add: arrayFrom_upto)

lemma sort_filter_settleOrder:
  "sort (filter P (settleOrder env (arrayFrom n start))) = filter P (arrayFrom n start)"
proof (rule properties_for_sort)
  show "mset (filter P (arrayFrom n start)) = mset (filter P (settleOrder env (arrayFrom n start)))"
    by (simp add: settleOrder_def)
  show "sorted (filter P (arrayFrom n start))"
    by (simp add: sorted_arrayFrom sorted_wrt_filter)
qed

lemma strict_take_drop:
  assumes "sorted xs" "distinct xs" "x \<in> set (take k xs)" "y \<in> set (drop k xs)"
  shows "x < (y::int)"
proof -
  have "sorted_wrt (<) (take k xs @ drop k xs)"
    using assms(1,2) by (simp add: strict_sorted_iff)
  with assms(3,4) show ?thesis
    unfolding sorted_wrt_append by blast
qed

lemma requestPushes_yielded:
  "requestPushes env files config g bn refs p \<noteq> [] \<longleftrightarrow>
     (\<exists>x xs. requestOutcome env files config g bn refs p = Inr (p, x # xs))"
  by (auto simp add: requestPushes_def requestOutcome_def requestPromise_def Let_def neq_Nil_conv
      split: sum.splits if_splits)

subsection \<open>The concrete environment\<close>

lemma ImagePart_notin_references:
  "m \<noteq> ''image/png'' \<Longrightarrow>
     ImagePart d m \<in> set (addReferenceImages g refs acc) \<longleftrightarrow> ImagePart d m \<in> set acc"
  by (induction refs arbitrary: acc) (simp_all split: option.splits)

lemma demo_requestOutcome:
  "requestOutcome demoEnv files config g bn refs p =
     (case fileAt files p of
        None \<Rightarrow> Inl (Error ''not a file'')
      | Some d \<Rightarrow>
          if d = [] then Inl (Error ''cannot decode'')
          else if d = ''empty'' then Inr (p, [])
          else if d = ''fault'' then Inl (Error ''remote fault'')
          else Inr (p, [''done'']))"
  by (simp add: requestOutcome_def requestPromise_def buildSinglePageRequest_def demoEnv_def
      ImagePart_notin_references split: option.splits)

lemma demo_settleTime: "settleTime demoEnv p = nat (100 - p)"
  by (simp add: demoEnv_def)

lemma demo_batchSize: "batchSize demoConfig = 4"
  by (simp add: demoConfig_def)

lemmas demo_run = processColorization_def colorizeBatch_eq Let_def batchIndices_def batchCount_def
  arrayFrom_def settleOrder_def refIndices_def demo_requestOutcome requestPushes_cases fileAt_def
  demo_batchSize demo_settleTime

subsection \<open>Translation\<close>

lemma translateSinglePage_append:
  "translateSinglePage env file config p tr =
     (fst (translateSinglePage env file config p []), tr @ snd (translateSinglePage env file config p []))"
  by (simp add: translateSinglePage_def Let_def split: sum.splits)

lemma batchPromise_views:
  "batchPromise env files config p tr =
     (translateOutcome env files config p, tr @ translateEvents env files config p)"
proof -
  have "batchPromise env files config p tr =
      (fst (batchPromise env files config p []), tr @ snd (batchPromise env files config p []))"
    unfolding batchPromise_def
    by (subst translateSinglePage_append) (simp split: sum.splits prod.splits)
  then show ?thesis
    by (simp add: translateOutcome_def translateEvents_def)
qed

lemma promiseAll_batchPromise:
  "promiseAll (batchPromise env files config) ps tr =
     (firstRejection (map (translateOutcome env files config) ps),
      tr @ concat (map (translateEvents env files config) ps))"
  by (simp add: promiseAll_fold [where r = "translateOutcome env files config"
        and upd = "\<lambda>p tr. tr @ translateEvents env files config p"]
      batchPromise_views fold_append_one)

lemma translateLoop_Suc:
  "translateLoop (Suc n) env files config batchStart tr =
     (if batchStart < int (length files)
      then (let indices = translateBatchIndices config (int (length files)) batchStart;
                order = settleOrder env indices;
                tr1 = tr @ PageProcessing indices # concat (map (translateEvents env files config) order)
            in case firstRejection (map (translateOutcome env files config) order) of
                 Some e \<Rightarrow> (Rejected e, tr1)
               | None \<Rightarrow> translateLoop n env files config (batchStart + batchSize config) tr1)
      else (Resolved, tr))"
  by (simp add: promiseAll_batchPromise Let_def split: option.splits)

lemma translateOutcome_cases:
  "translateOutcome env files config p =
     (case fileToBase64 env (fileAt files p) of
        Inl e \<Rightarrow> Inl e
      | Inr base64 \<Rightarrow>
         (case getMimeType env (fileAt files p) of
            Inl e \<Rightarrow> Inl e
          | Inr mimeType \<Rightarrow>
             (case callGeminiImageAPI env (apiKey config)
                     [TextPart (getTranslationPrompt (fromLanguage config) (toLanguage config)),
                      ImagePart base64 mimeType]
                     (formatResolution env (resolution config))
                     (''translate_page_'' @ numberToString p @ ''_'' @ numberToString (dateNow env p)) of
                Inl e \<Rightarrow> Inl e
              | Inr results \<Rightarrow>
                  if results = []
                  then Inl (Error (''No image result for page '' @ numberToString (p + 1)))
                  else Inr (hd results, p))))"
  by (simp add: translateOutcome_def batchPromise_def translateSinglePage_def Let_def
      split: sum.splits)

lemma translateEvents_cases:
  "translateEvents env files config p =
     (case fileToBase64 env (fileAt files p) of
        Inl e \<Rightarrow> []
      | Inr base64 \<Rightarrow>
         (case getMimeType env (fileAt files p) of
            Inl e \<Rightarrow> []
          | Inr mimeType \<Rightarrow>
             RemoteCall (apiKey config)
               [TextPart (getTranslationPrompt (fromLanguage config) (toLanguage config)),
                ImagePart base64 mimeType]
               (formatResolution env (resolution config))
               (''translate_page_'' @ numberToString p @ ''_'' @ numberToString (dateNow env p)) #
             (case translateOutcome env files config p of
                Inl e \<Rightarrow> []
              | Inr result \<Rightarrow> [PageComplete (fst result) (snd result)])))"
  by (simp add: translateEvents_def translateOutcome_def batchPromise_def translateSinglePage_def
      Let_def split: sum.splits)

lemma batches_translateEvents: "batches (translateEvents env files config p) = []"
  by (simp add: translateEvents_cases split: sum.splits)

lemma batches_concat_translateEvents:
  "batches (concat (map (translateEvents env files config) ps)) = []"
  by (induction ps) (simp_all add: batches_append batches_translateEvents)

lemma demo_translateOutcome:
  "translateOutcome demoEnv files config p =
     (case fileAt files p of
        None \<Rightarrow> Inl (Error ''not a file'')
      | Some d \<Rightarrow>
          if d = [] then Inl (Error ''cannot decode'')
          else if d = ''empty'' then Inl (Error (''No image result for page '' @ numberToString (p + 1)))
          else if d = ''fault'' then Inl (Error ''remote fault'')
          else Inr (''done'', p))"
  by (simp add: translateOutcome_cases demoEnv_def split: option.splits)

lemma demo_fields:
  "fileToBase64 demoEnv f =
     (case f of None \<Rightarrow> Inl (Error ''not a file'')
      | Some d \<Rightarrow> if d = [] then Inl (Error ''cannot decode'') else Inr d)"
  "getMimeType demoEnv f = Inr ''image/jpeg''"
  "getImageDimensions demoEnv f = Inr (800, 1200)"
  "formatAspectRatioForPrompt demoEnv w h = numberToString w @ ''x'' @ numberToString h"
  "formatResolution demoEnv r = r"
  "dateNow demoEnv p = 0"
  by (simp_all add: demoEnv_def)

lemma demo_translateEvents:
  "translateEvents demoEnv files config p =
     (case fileAt files p of
        None \<Rightarrow> []
      | Some d \<Rightarrow>
          if d = [] then []
          else RemoteCall (apiKey config)
                 [TextPart (getTranslationPrompt (fromLanguage config) (toLanguage config)),
                  ImagePart d ''image/jpeg'']
                 (resolution config) (''translate_page_'' @ numberToString p @ ''_0'') #
               (if d = ''empty'' \<or> d = ''fault'' then [] else [PageComplete ''done'' p]))"
  by (simp add: translateEvents_cases demo_translateOutcome demo_fields numberToString_def
      digits.simps split: option.splits)

lemma demo_translate_batchSize: "batchSize demoTranslateConfig = 2"
  by (simp add: demoTranslateConfig_def)

lemmas demo_translate_run = processTranslation_def translateLoop_Suc Let_def
  translateBatchIndices_def arrayFrom_def settleOrder_def demo_translateOutcome fileAt_def
  demo_translate_batchSize demo_settleTime


lemma addReferenceImages_Cons:
  "addReferenceImages g (r # refs) acc =
     addReferenceImages g refs (acc @
       (case g r of
          None \<Rightarrow> []
        | Some refBase64 \<Rightarrow>
            if refBase64 = [] then []
            else [TextPart (''This is reference page '' @ numberToString (r + 1) @
                    '' (already colorized):''),
                  ImagePart refBase64 ''image/png'']))"
  by (simp split: option.splits)

lemma addReferenceImages_acc:
  "addReferenceImages g refs acc = acc @ addReferenceImages g refs []"
proof (induction refs arbitrary: acc)
  case Nil
  show ?case by simp
next
  case (Cons r refs)
  define X where "X = (case g r of
          None \<Rightarrow> []
        | Some refBase64 \<Rightarrow>
            if refBase64 = [] then []
            else [TextPart (''This is reference page '' @ numberToString (r + 1) @
                    '' (already colorized):''),
                  ImagePart refBase64 ''image/png''])"
  have "addReferenceImages g (r # refs) acc = addReferenceImages g refs (acc @ X)"
    unfolding X_def by (rule addReferenceImages_Cons)
  also have "\<dots> = (acc @ X) @ addReferenceImages g refs []"
    by (rule Cons.IH)
  also have "\<dots> = acc @ addReferenceImages g refs ([] @ X)"
    using Cons.IH [of X] by simp
  also have "\<dots> = acc @ addReferenceImages g (r # refs) []"
    unfolding X_def by (simp only: addReferenceImages_Cons)
  finally show ?case .
qed

lemma addReferenceImages_concat:
  "addReferenceImages g refs [] =
     concat (map (\<lambda>refIdx. case g refIdx of
         None \<Rightarrow> []
       | Some refBase64 \<Rightarrow>
           if refBase64 = [] then []
           else [TextPart (''This is reference page '' @ numberToString (refIdx + 1) @
                   '' (already colorized):''),
                 ImagePart refBase64 ''image/png'']) refs)"
proof (induction refs)
  case Nil
  show ?case by simp
next
  case (Cons r refs)
  define X where "X = (case g r of
          None \<Rightarrow> []
        | Some refBase64 \<Rightarrow>
            if refBase64 = [] then []
            else [TextPart (''This is reference page '' @ numberToString (r + 1) @
                    '' (already colorized):''),
                  ImagePart refBase64 ''image/png''])"
  have "addReferenceImages g (r # refs) [] = addReferenceImages g refs ([] @ X)"
    unfolding X_def by (rule addReferenceImages_Cons)
  also have "\<dots> = X @ addReferenceImages g refs []"
    using addReferenceImages_acc [of g refs X] by simp
  finally show ?case
    by (simp add: Cons.IH X_def)
qed

lemma submitted_requestEvents:
  "c \<in> set (submitted (requestEvents env files config g bn refs p)) \<Longrightarrow>
     buildSinglePageRequest env p (fileAt files p) refs g = Inr c"
  by (auto simp add: requestEvents_def requestPromise_def Let_def split: sum.splits if_splits)

lemma submitted_translateEvents:
  "c \<in> set (submitted (translateEvents env files config p)) \<Longrightarrow>
     \<exists>base64 mimeType. c =
       [TextPart (getTranslationPrompt (fromLanguage config) (toLanguage config)),
        ImagePart base64 mimeType]"
  by (auto simp add: translateEvents_cases split: sum.splits)

subsection \<open>Rejection\<close>

lemma firstRejection_None: "firstRejection rs = None \<longleftrightarrow> (\<forall>r \<in> set rs. \<forall>e. r \<noteq> Inl e)"
  by (induction rs rule: firstRejection.induct) auto

lemma firstRejection_Some_mem: "firstRejection rs = Some e \<Longrightarrow> Inl e \<in> set rs"
  by (induction rs rule: firstRejection.induct) auto

lemma translateEvents_call:
  assumes "RemoteCall k c r rid \<in> set (translateEvents env files config q)"
  shows "translateOutcome env files config q =
     (case callGeminiImageAPI env k c r rid of
        Inl e \<Rightarrow> Inl e
      | Inr results \<Rightarrow>
          if results = []
          then Inl (Error (''No image result for page '' @ numberToString (q + 1)))
          else Inr (hd results, q))"
  using assms
  by (auto simp add: translateEvents_cases translateOutcome_cases split: sum.splits)

lemma translateLoop_empty_rejects:
  assumes "\<forall>k c r rid. RemoteCall k c r rid \<in> set tr \<longrightarrow> callGeminiImageAPI env k c r rid \<noteq> Inr []"
    and "RemoteCall k c r rid \<in> set (snd (translateLoop n env files config batchStart tr))"
    and "callGeminiImageAPI env k c r rid = Inr []"
  shows "\<exists>e pre b evs p.
      translateLoop n env files config batchStart tr = (Rejected e, pre @ PageProcessing b # evs) \<and>
      batches evs = [] \<and>
      RemoteCall k c r rid \<in> set evs \<and>
      p \<in> set b \<and>
      translateOutcome env files config p =
        Inl (Error (''No image result for page '' @ numberToString (p + 1))) \<and>
      firstRejection (map (translateOutcome env files config) (settleOrder env b)) = Some e"
  using assms(1,2)
proof (induction n arbitrary: batchStart tr)
  case 0
  then show ?case
    using assms(3) by (auto split: if_splits)
next
  case (Suc n)
  define b where "b = translateBatchIndices config (int (length files)) batchStart"
  define evs where "evs = concat (map (translateEvents env files config) (settleOrder env b))"
  define tr1 where "tr1 = tr @ PageProcessing b # evs"
  have guard: "batchStart < int (length files)"
    using Suc.prems assms(3) by (auto split: if_splits)
  show ?case
  proof (cases "firstRejection (map (translateOutcome env files config) (settleOrder env b))")
    case (Some e)
    then have res: "translateLoop (Suc n) env files config batchStart tr = (Rejected e, tr1)"
      using guard by (simp add: translateLoop_Suc Let_def b_def evs_def tr1_def del: translateLoop.simps)
    with Suc.prems have "RemoteCall k c r rid \<in> set evs"
      using assms(3) by (auto simp add: tr1_def)
    then obtain q where q: "q \<in> set b" "RemoteCall k c r rid \<in> set (translateEvents env files config q)"
      by (auto simp add: evs_def set_settleOrder)
    from translateEvents_call [OF q(2)] assms(3)
    have "translateOutcome env files config q =
        Inl (Error (''No image result for page '' @ numberToString (q + 1)))"
      by simp
    moreover have "batches evs = []"
      by (simp add: evs_def batches_concat_translateEvents)
    ultimately show ?thesis
      using res Some q(1) \<open>RemoteCall k c r rid \<in> set evs\<close> unfolding tr1_def by blast
  next
    case None
    then have res: "translateLoop (Suc n) env files config batchStart tr =
        translateLoop n env files config (batchStart + batchSize config) tr1"
      using guard by (simp add: translateLoop_Suc Let_def b_def evs_def tr1_def del: translateLoop.simps)
    have ok: "\<forall>q \<in> set b. \<forall>e. translateOutcome env files config q \<noteq> Inl e"
      using None by (simp add: firstRejection_None set_settleOrder)
    have "\<forall>k c r rid. RemoteCall k c r rid \<in> set tr1 \<longrightarrow> callGeminiImageAPI env k c r rid \<noteq> Inr []"
    proof (intro allI impI)
      fix k' c' r' rid'
      assume "RemoteCall k' c' r' rid' \<in> set tr1"
      then consider "RemoteCall k' c' r' rid' \<in> set tr"
        | q where "q \<in> set b" "RemoteCall k' c' r' rid' \<in> set (translateEvents env files config q)"
        by (auto simp add: tr1_def evs_def set_settleOrder)
      then show "callGeminiImageAPI env k' c' r' rid' \<noteq> Inr []"
      proof cases
        case 1
        with Suc.prems(1) show ?thesis by blast
      next
        case 2
        from translateEvents_call [OF 2(2)] ok 2(1) show ?thesis
          by (auto split: sum.splits if_splits)
      qed
    qed
    moreover have "RemoteCall k c r rid \<in> set (snd (translateLoop n env files config (batchStart + batchSize config) tr1))"
      using Suc.prems(2) res by simp
    ultimately show ?thesis
      unfolding res by (rule Suc.IH)
  qed
qed

lemma translateLoop_settled:
  "fst (translateLoop n env files config batchStart tr) \<noteq> Pending \<Longrightarrow>
     translateLoop (n + m) env files config batchStart tr = translateLoop n env files config batchStart tr"
proof (induction n arbitrary: batchStart tr)
  case 0
  then show ?case
    by (cases m) (auto split: if_splits)
next
  case (Suc n)
  then show ?case
    by (auto simp add: Let_def split: if_splits prod.splits option.splits)
qed

lemma colorizeLoop_rejected_cause:
  "fst (colorizeLoop n env files config g s) = Rejected e \<Longrightarrow>
     \<exists>bn refs p. requestOutcome env files config g bn refs p = Inl e"
proof (induction n arbitrary: s)
  case 0
  then show ?case by (simp split: if_splits)
next
  case (Suc n)
  then have guard: "currentIndex s < int (length files)"
    by (auto split: if_splits)
  obtain r s' where step: "colorizeBatch env files config g s = (r, s')"
    by (cases "colorizeBatch env files config g s")
  show ?case
  proof (cases r)
    case None
    with Suc.prems step guard have "fst (colorizeLoop n env files config g s') = Rejected e"
      by simp
    then show ?thesis by (rule Suc.IH)
  next
    case (Some e')
    with Suc.prems step guard have "e' = e"
      by simp
    with step Some have "colorizeBatch env files config g s = (Some e, s')"
      by simp
    from firstRejection_Some_mem [OF colorizeBatch_rejected(5) [OF this]]
    obtain p where "requestOutcome env files config g (batchNumber s) (refIndices config s) p = Inl e"
      by auto
    then show ?thesis
      by blast
  qed
qed

lemma requestOutcome_cases:
  "requestOutcome env files config g bn refs p =
     (case buildSinglePageRequest env p (fileAt files p) refs g of
        Inl e \<Rightarrow> Inl e
      | Inr contents \<Rightarrow>
         (case callGeminiImageAPI env (apiKey config) contents
                 (formatResolution env (resolution config))
                 (''colorize_batch'' @ numberToString bn @ ''_page'' @ numberToString (p + 1) @
                  ''_'' @ numberToString (dateNow env p)) of
            Inl e \<Rightarrow> Inl e
          | Inr results \<Rightarrow> Inr (p, results)))"
  by (simp add: requestOutcome_def requestPromise_def Let_def split: sum.splits)

subsection \<open>A registry that stays empty\<close>

lemma colorizeLoop_stuck:
  assumes "completedIndices s = []" "2 \<le> batchNumber s" "0 \<le> batchSize config"
    "currentIndex s < int (length files)"
  shows "\<exists>s'. colorizeLoop n env files config g s = (Pending, s') \<and>
     completedIndices s' = [] \<and> currentIndex s' = currentIndex s"
  using assms
proof (induction n arbitrary: s)
  case 0
  then show ?case by simp
next
  case (Suc n)
  then have "batchCount config (int (length files)) s = 0"
    by (simp add: batchCount_def)
  then have idle: "batchIndices config (int (length files)) s = []"
    by (simp add: batchIndices_def arrayFrom_def)
  obtain s' where step: "colorizeBatch env files config g s = (None, s')"
    by (simp add: colorizeBatch_eq Let_def idle settleOrder_def)
  have s': "completedIndices s' = []" "currentIndex s' = currentIndex s" "batchNumber s' = batchNumber s + 1"
    using colorizeBatch_advanced(1,2,3) [OF step] Suc.prems(1)
      \<open>batchCount config (int (length files)) s = 0\<close>
    by (simp_all add: idle settleOrder_def)
  then have "\<exists>s''. colorizeLoop n env files config g s' = (Pending, s'') \<and>
     completedIndices s'' = [] \<and> currentIndex s'' = currentIndex s'"
    using Suc.prems by (intro Suc.IH) simp_all
  then show ?case
    using step Suc.prems(4) s'(2) by simp
qed

subsection \<open>The pages announced\<close>

lemma map_int_upt_append:
  assumes "0 \<le> c" "0 \<le> k"
  shows "map int [0..<nat c] @ arrayFrom k c = map int [0..<nat (c + k)]"
proof -
  have "nat (c + k) = nat c + nat k"
    using assms by (simp add: nat_add_distrib)
  then have "[0..<nat (c + k)] = [0..<nat c] @ [nat c..<nat c + nat k]"
    using upt_add_eq_append [of 0 "nat c" "nat k"] by simp
  moreover have "map int [nat c..<nat c + nat k] = map (\<lambda>i. c + int i) [0..<nat k]"
  proof -
    have "[nat c..<nat c + nat k] = map (\<lambda>i. i + nat c) [0..<nat k]"
      using map_add_upt [of "nat c" "nat k"] by (simp add: add.commute)
    then show ?thesis
      using assms(1) by (simp add: comp_def add.commute)
  qed
  ultimately show ?thesis
    by (simp add: arrayFrom_def)
qed

lemma colorizeLoop_prefix:
  assumes "0 \<le> batchSize config" "1 \<le> batchNumber s"
    "0 \<le> currentIndex s" "currentIndex s \<le> int (length files)"
    "concat (batches (trace s)) = map int [0..<nat (currentIndex s)]"
  shows "\<exists>k \<le> length files.
     concat (batches (trace (snd (colorizeLoop n env files config g s)))) = map int [0..<k]"
  using assms(2-)
proof (induction n arbitrary: s)
  case 0
  then have "nat (currentIndex s) \<le> length files"
    by simp
  with 0 show ?case
    by auto
next
  case (Suc n)
  show ?case
  proof (cases "currentIndex s < int (length files)")
    case False
    with Suc.prems have "nat (currentIndex s) \<le> length files"
      by simp
    with False Suc.prems show ?thesis
      by auto
  next
    case True
    define bc where "bc = batchCount config (int (length files)) s"
    have bc: "0 \<le> bc" "currentIndex s + bc \<le> int (length files)"
      using True Suc.prems(1) assms(1) by (auto simp add: bc_def batchCount_def)
    have emitted: "map int [0..<nat (currentIndex s)] @ batchIndices config (int (length files)) s =
        map int [0..<nat (currentIndex s + bc)]"
      unfolding batchIndices_def bc_def [symmetric]
      using Suc.prems(2) bc(1) by (rule map_int_upt_append)
    obtain r s' where step: "colorizeBatch env files config g s = (r, s')"
      by (cases "colorizeBatch env files config g s")
    show ?thesis
    proof (cases r)
      case (Some e)
      with step have rej: "colorizeBatch env files config g s = (Some e, s')"
        by simp
      have "concat (batches (trace s')) = map int [0..<nat (currentIndex s + bc)]"
        using emitted Suc.prems(4)
        by (simp add: colorizeBatch_rejected(4) [OF rej] batches_append batches_concat_requestEvents)
      moreover have "nat (currentIndex s + bc) \<le> length files"
        using bc by simp
      ultimately show ?thesis
        using True rej by auto
    next
      case None
      with step have adv: "colorizeBatch env files config g s = (None, s')"
        by simp
      note facts = colorizeBatch_advanced [OF adv]
      have "concat (batches (trace s')) = map int [0..<nat (currentIndex s')]"
        using emitted Suc.prems(4)
        by (simp add: facts(2) facts(4) bc_def batches_append batches_concat_requestEvents)
      moreover have "1 \<le> batchNumber s'" "0 \<le> currentIndex s'" "currentIndex s' \<le> int (length files)"
        using Suc.prems bc by (simp_all add: facts(2) facts(3) bc_def)
      ultimately have "\<exists>k \<le> length files.
          concat (batches (trace (snd (colorizeLoop n env files config g s')))) = map int [0..<k]"
        by (intro Suc.IH) simp_all
      then show ?thesis
        using True adv by simp
    qed
  qed
qed

lemma colorizeLoop_completes:
  assumes bs: "1 \<le> batchSize config"
    and seed: "\<exists>x xs. requestOutcome env files config g 1 [] 0 = Inr (0, x # xs)"
    and inv: "1 \<le> batchNumber s" "0 \<le> currentIndex s" "currentIndex s \<le> int (length files)"
      "batchNumber s = 1 \<longrightarrow> currentIndex s = 0 \<and> completedIndices s = []"
      "batchNumber s \<noteq> 1 \<longrightarrow> completedIndices s \<noteq> []"
      "concat (batches (trace s)) = map int [0..<nat (currentIndex s)]"
    and fuel: "nat (int (length files) - currentIndex s) \<le> n"
    and accepted: "\<forall>e. fst (colorizeLoop n env files config g s) \<noteq> Rejected e"
  shows "fst (colorizeLoop n env files config g s) = Resolved \<and>
     concat (batches (trace (snd (colorizeLoop n env files config g s)))) = map int [0..<length files]"
  using inv fuel accepted
proof (induction n arbitrary: s)
  case 0
  then have "currentIndex s = int (length files)"
    by simp
  with 0 show ?case by simp
next
  case (Suc n)
  show ?case
  proof (cases "currentIndex s < int (length files)")
    case False
    with Suc.prems have "currentIndex s = int (length files)"
      by simp
    with Suc.prems show ?thesis by simp
  next
    case True
    define bc where "bc = batchCount config (int (length files)) s"
    have bc: "1 \<le> bc" "currentIndex s + bc \<le> int (length files)"
    proof -
      have "batchNumber s \<noteq> 1 \<Longrightarrow> 1 \<le> int (length (completedIndices s))"
        using Suc.prems(5) by (cases "completedIndices s") simp_all
      then show "1 \<le> bc" "currentIndex s + bc \<le> int (length files)"
        using True Suc.prems(1) bs by (auto simp add: bc_def batchCount_def)
    qed
    obtain r s' where step: "colorizeBatch env files config g s = (r, s')"
      by (cases "colorizeBatch env files config g s")
    have "r = None"
    proof (cases r)
      case None
      then show ?thesis .
    next
      case (Some e)
      with step True have "fst (colorizeLoop (Suc n) env files config g s) = Rejected e"
        by simp
      with Suc.prems(8) show ?thesis
        by blast
    qed
    with step have adv: "colorizeBatch env files config g s = (None, s')"
      by simp
    have next_run: "colorizeLoop (Suc n) env files config g s = colorizeLoop n env files config g s'"
      using True adv by simp
    note facts = colorizeBatch_advanced [OF adv]
    have emitted: "map int [0..<nat (currentIndex s)] @ batchIndices config (int (length files)) s =
        map int [0..<nat (currentIndex s + bc)]"
      unfolding batchIndices_def bc_def [symmetric]
      using Suc.prems(2) bc(1) by (intro map_int_upt_append) simp_all
    have tr: "concat (batches (trace s')) = map int [0..<nat (currentIndex s')]"
      using emitted Suc.prems(6)
      by (simp add: facts(2) facts(4) bc_def batches_append batches_concat_requestEvents)
    have seeded: "completedIndices s' \<noteq> []"
    proof (cases "batchNumber s = 1")
      case False
      with Suc.prems(5) show ?thesis
        by (simp add: facts(1))
    next
      case first: True
      with Suc.prems(4) have start: "currentIndex s = 0" "completedIndices s = []"
        by simp_all
      have "batchCount config (int (length files)) s \<le> 1"
        using first by (simp add: batchCount_def)
      with bc(1) have "batchCount config (int (length files)) s = 1"
        by (simp add: bc_def)
      then have "batchIndices config (int (length files)) s = [0]"
        by (simp add: batchIndices_def arrayFrom_def start)
      moreover have "refIndices config s = []"
        by (simp add: refIndices_def start)
      moreover have "requestPushes env files config g 1 [] 0 \<noteq> []"
        using seed by (simp add: requestPushes_yielded)
      ultimately show ?thesis
        by (simp add: facts(1) first settleOrder_def)
    qed
    have "fst (colorizeLoop n env files config g s') = Resolved \<and>
       concat (batches (trace (snd (colorizeLoop n env files config g s')))) = map int [0..<length files]"
    proof (rule Suc.IH)
      show "1 \<le> batchNumber s'" "0 \<le> currentIndex s'" "currentIndex s' \<le> int (length files)"
        using Suc.prems bc by (simp_all add: facts(2) facts(3) bc_def)
      show "batchNumber s' = 1 \<longrightarrow> currentIndex s' = 0 \<and> completedIndices s' = []"
        using Suc.prems(1) by (simp add: facts(3))
      show "batchNumber s' \<noteq> 1 \<longrightarrow> completedIndices s' \<noteq> []"
        using seeded by simp
      show "concat (batches (trace s')) = map int [0..<nat (currentIndex s')]"
        by (rule tr)
      show "nat (int (length files) - currentIndex s') \<le> n"
        using Suc.prems(7) bc by (simp add: facts(2) bc_def)
      show "\<forall>e. fst (colorizeLoop n env files config g s') \<noteq> Rejected e"
        using Suc.prems(8) unfolding next_run .
    qed
    then show ?thesis
      unfolding next_run .
  qed
qed

lemma translate_emitted:
  assumes "0 \<le> batchSize config" "0 \<le> batchStart" "batchStart < int (length files)"
  shows "map int [0..<nat (min batchStart (int (length files)))] @
       translateBatchIndices config (int (length files)) batchStart =
     map int [0..<nat (min (batchStart + batchSize config) (int (length files)))]"
proof -
  have "map int [0..<nat batchStart] @
      arrayFrom (min (batchStart + batchSize config) (int (length files)) - batchStart) batchStart =
      map int [0..<nat (batchStart + (min (batchStart + batchSize config) (int (length files)) - batchStart))]"
    using assms by (intro map_int_upt_append) simp_all
  then show ?thesis
    using assms(3) by (simp add: translateBatchIndices_def Let_def min_def)
qed

lemma translateLoop_prefix:
  assumes "0 \<le> batchSize config" "0 \<le> batchStart"
    "concat (batches tr) = map int [0..<nat (min batchStart (int (length files)))]"
  shows "\<exists>k \<le> length files.
     concat (batches (snd (translateLoop n env files config batchStart tr))) = map int [0..<k]"
  using assms(2-)
proof (induction n arbitrary: batchStart tr)
  case 0
  have "nat (min batchStart (int (length files))) \<le> length files"
    by simp
  with 0 show ?case
    by (metis snd_conv translateLoop.simps(1))
next
  case (Suc n)
  show ?case
  proof (cases "batchStart < int (length files)")
    case False
    have "nat (min batchStart (int (length files))) \<le> length files"
      by simp
    with False Suc.prems show ?thesis
      by (metis snd_conv translateLoop.simps(2))
  next
    case True
    define b where "b = translateBatchIndices config (int (length files)) batchStart"
    define tr1 where "tr1 = tr @ PageProcessing b #
        concat (map (translateEvents env files config) (settleOrder env b))"
    have tr1: "concat (batches tr1) =
        map int [0..<nat (min (batchStart + batchSize config) (int (length files)))]"
      using translate_emitted [OF assms(1) Suc.prems(1) True] Suc.prems(2)
      by (simp add: tr1_def b_def batches_append batches_concat_translateEvents)
    show ?thesis
    proof (cases "firstRejection (map (translateOutcome env files config) (settleOrder env b))")
      case (Some e)
      then have "translateLoop (Suc n) env files config batchStart tr = (Rejected e, tr1)"
        using True by (simp add: translateLoop_Suc Let_def b_def tr1_def del: translateLoop.simps)
      moreover have "nat (min (batchStart + batchSize config) (int (length files))) \<le> length files"
        by simp
      ultimately show ?thesis
        using tr1 by (metis snd_conv)
    next
      case None
      then have res: "translateLoop (Suc n) env files config batchStart tr =
          translateLoop n env files config (batchStart + batchSize config) tr1"
        using True by (simp add: translateLoop_Suc Let_def b_def tr1_def del: translateLoop.simps)
      have "\<exists>k \<le> length files.
          concat (batches (snd (translateLoop n env files config (batchStart + batchSize config) tr1))) =
          map int [0..<k]"
        using assms(1) Suc.prems(1) tr1 by (intro Suc.IH) simp_all
      then show ?thesis
        unfolding res .
    qed
  qed
qed

lemma translateLoop_completes:
  assumes bs: "1 \<le> batchSize config"
    and inv: "0 \<le> batchStart"
      "concat (batches tr) = map int [0..<nat (min batchStart (int (length files)))]"
    and fuel: "nat (int (length files) - batchStart) \<le> n"
    and accepted: "\<forall>e. fst (translateLoop n env files config batchStart tr) \<noteq> Rejected e"
  shows "fst (translateLoop n env files config batchStart tr) = Resolved \<and>
     concat (batches (snd (translateLoop n env files config batchStart tr))) = map int [0..<length files]"
  using inv fuel accepted
proof (induction n arbitrary: batchStart tr)
  case 0
  then have "int (length files) \<le> batchStart"
    by simp
  with 0 show ?case by (simp add: min_def)
next
  case (Suc n)
  show ?case
  proof (cases "batchStart < int (length files)")
    case False
    with Suc.prems show ?thesis by (simp add: min_def)
  next
    case True
    define b where "b = translateBatchIndices config (int (length files)) batchStart"
    define tr1 where "tr1 = tr @ PageProcessing b #
        concat (map (translateEvents env files config) (settleOrder env b))"
    have bs0: "0 \<le> batchSize config"
      using bs by simp
    have tr1: "concat (batches tr1) =
        map int [0..<nat (min (batchStart + batchSize config) (int (length files)))]"
      using translate_emitted [OF bs0 Suc.prems(1) True] Suc.prems(2)
      by (simp add: tr1_def b_def batches_append batches_concat_translateEvents)
    have "firstRejection (map (translateOutcome env files config) (settleOrder env b)) = None"
    proof (cases "firstRejection (map (translateOutcome env files config) (settleOrder env b))")
      case None
      then show ?thesis .
    next
      case (Some e)
      then have "translateLoop (Suc n) env files config batchStart tr = (Rejected e, tr1)"
        using True by (simp add: translateLoop_Suc Let_def b_def tr1_def del: translateLoop.simps)
      with Suc.prems(4) show ?thesis
        by (metis fst_conv)
    qed
    then have res: "translateLoop (Suc n) env files config batchStart tr =
        translateLoop n env files config (batchStart + batchSize config) tr1"
      using True by (simp add: translateLoop_Suc Let_def b_def tr1_def del: translateLoop.simps)
    have "fst (translateLoop n env files config (batchStart + batchSize config) tr1) = Resolved \<and>
       concat (batches (snd (translateLoop n env files config (batchStart + batchSize config) tr1))) =
         map int [0..<length files]"
    proof (rule Suc.IH)
      show "0 \<le> batchStart + batchSize config"
        using bs Suc.prems(1) by simp
      show "concat (batches tr1) =
          map int [0..<nat (min (batchStart + batchSize config) (int (length files)))]"
        by (rule tr1)
      show "nat (int (length files) - (batchStart + batchSize config)) \<le> n"
        using bs Suc.prems(3) by simp
      show "\<forall>e. fst (translateLoop n env files config (batchStart + batchSize config) tr1) \<noteq> Rejected e"
        using Suc.prems(4) unfolding res .
    qed
    then show ?thesis
      unfolding res .
  qed
qed

lemma colorizeLoop_settled:
  "fst (colorizeLoop n env files config g s) \<noteq> Pending \<Longrightarrow>
     colorizeLoop (n + m) env files config g s = colorizeLoop n env files config g s"
proof (induction n arbitrary: s)
  case 0
  then show ?case
    by (cases m) (auto split: if_splits)
next
  case (Suc n)
  then show ?case
    by (auto split: if_splits prod.splits option.splits)
qed

lemma colorizeLoop_rejected_task:
  "fst (colorizeLoop n env files config g s) = Rejected e \<Longrightarrow>
     \<exists>m < n. fst (colorizeLoop m env files config g s) = Pending \<and>
       (\<exists>q \<in> set (batchIndices config (int (length files)) (snd (colorizeLoop m env files config g s))).
          requestOutcome env files config g
            (batchNumber (snd (colorizeLoop m env files config g s)))
            (refIndices config (snd (colorizeLoop m env files config g s))) q = Inl e)"
proof (induction n arbitrary: s)
  case 0
  then show ?case by (simp split: if_splits)
next
  case (Suc n)
  then have guard: "currentIndex s < int (length files)"
    by (auto split: if_splits)
  obtain r s' where step: "colorizeBatch env files config g s = (r, s')"
    by (cases "colorizeBatch env files config g s")
  show ?case
  proof (cases r)
    case (Some e')
    with Suc.prems step guard have "e' = e"
      by simp
    with step Some have "colorizeBatch env files config g s = (Some e, s')"
      by simp
    from firstRejection_Some_mem [OF colorizeBatch_rejected(5) [OF this]]
    obtain q where "q \<in> set (batchIndices config (int (length files)) s)"
      "requestOutcome env files config g (batchNumber s) (refIndices config s) q = Inl e"
      by (auto simp add: set_settleOrder)
    moreover have "colorizeLoop 0 env files config g s = (Pending, s)"
      using guard by simp
    ultimately have "fst (colorizeLoop 0 env files config g s) = Pending \<and>
       (\<exists>q \<in> set (batchIndices config (int (length files)) (snd (colorizeLoop 0 env files config g s))).
          requestOutcome env files config g
            (batchNumber (snd (colorizeLoop 0 env files config g s)))
            (refIndices config (snd (colorizeLoop 0 env files config g s))) q = Inl e)"
      by (simp only: fst_conv snd_conv) blast
    then show ?thesis
      by blast
  next
    case None
    with step guard have run: "\<And>k. colorizeLoop (Suc k) env files config g s =
        colorizeLoop k env files config g s'"
      by simp
    with Suc.prems have "fst (colorizeLoop n env files config g s') = Rejected e"
      by simp
    from Suc.IH [OF this] obtain m where m: "m < n"
      "fst (colorizeLoop m env files config g s') = Pending"
      "\<exists>q \<in> set (batchIndices config (int (length files)) (snd (colorizeLoop m env files config g s'))).
          requestOutcome env files config g
            (batchNumber (snd (colorizeLoop m env files config g s')))
            (refIndices config (snd (colorizeLoop m env files config g s'))) q = Inl e"
      by blast
    have "Suc m < Suc n"
      using m(1) by simp
    moreover have "fst (colorizeLoop (Suc m) env files config g s) = Pending \<and>
       (\<exists>q \<in> set (batchIndices config (int (length files)) (snd (colorizeLoop (Suc m) env files config g s))).
          requestOutcome env files config g
            (batchNumber (snd (colorizeLoop (Suc m) env files config g s)))
            (refIndices config (snd (colorizeLoop (Suc m) env files config g s))) q = Inl e)"
      unfolding run using m(2,3) by blast
    ultimately show ?thesis
      by blast
  qed
qed

lemma translateLoop_rejected_task:
  "fst (translateLoop n env files config batchStart tr) = Rejected e \<Longrightarrow>
     \<exists>q \<in> set (concat (batches (snd (translateLoop n env files config batchStart tr)))).
       translateOutcome env files config q = Inl e"
proof (induction n arbitrary: batchStart tr)
  case 0
  then show ?case by (simp split: if_splits)
next
  case (Suc n)
  then have guard: "batchStart < int (length files)"
    by (auto split: if_splits)
  define b where "b = translateBatchIndices config (int (length files)) batchStart"
  define tr1 where "tr1 = tr @ PageProcessing b #
      concat (map (translateEvents env files config) (settleOrder env b))"
  show ?case
  proof (cases "firstRejection (map (translateOutcome env files config) (settleOrder env b))")
    case (Some e')
    then have res: "translateLoop (Suc n) env files config batchStart tr = (Rejected e', tr1)"
      using guard by (simp add: translateLoop_Suc Let_def b_def tr1_def del: translateLoop.simps)
    with Suc.prems have "e' = e"
      by simp
    with firstRejection_Some_mem [OF Some] obtain q where
      "q \<in> set b" "translateOutcome env files config q = Inl e"
      by (auto simp add: set_settleOrder)
    moreover have "set b \<subseteq> set (concat (batches tr1))"
      by (auto simp add: tr1_def batches_append)
    ultimately show ?thesis
      unfolding res by auto
  next
    case None
    then have res: "translateLoop (Suc n) env files config batchStart tr =
        translateLoop n env files config (batchStart + batchSize config) tr1"
      using guard by (simp add: translateLoop_Suc Let_def b_def tr1_def del: translateLoop.simps)
    with Suc.prems have "fst (translateLoop n env files config (batchStart + batchSize config) tr1) = Rejected e"
      by simp
    from Suc.IH [OF this] show ?thesis
      unfolding res .
  qed
qed

section \<open>The claims\<close>

text \<open>
  In the statements below, \<open>snd (processColorization n env files config g)\<close> is the state of
  a run of \<^verbatim>\<open>processColorization\<close> after \<open>n\<close> iterations of its loop (or its last state, if
  the run ended before), for any environment, any files and any order in which the tasks
  settle. So a statement about it for every \<open>n\<close> holds at the start of every batch of every run.
\<close>

text \<open>
  Claim C9. With an empty file list both \<^verbatim>\<open>processColorization\<close> and
  \<^verbatim>\<open>processTranslation\<close> resolve at once: the trace is empty, so neither callback nor the
  remote call was invoked.
\<close>

theorem empty_input_resolves_silently:
  "processColorization n env [] config g =
     (Resolved, \<lparr>completedIndices = [], currentIndex = 0, batchNumber = 1, trace = []\<rparr>) \<and>
   processTranslation n env [] tconfig = (Resolved, [])"
  by (cases n) (simp_all add: processColorization_def processTranslation_def)

text \<open>
  Claim C5. In every iteration of the chained loop the batch count is 1 when the batch
  number is 1 and otherwise the least of the batch number, the batch size and the number of
  completed pages, in both cases clamped to the pages that remain; the batch is the
  contiguous range of that many indices from the cursor, and it is what the iteration
  announces.
\<close>

theorem batch_plan:
  "batchCount config (int (length files)) s =
     min (if batchNumber s = 1 then 1
          else Min {batchNumber s, batchSize config, int (length (completedIndices s))})
       (int (length files) - currentIndex s) \<and>
   batchIndices config (int (length files)) s =
     [currentIndex s..currentIndex s + batchCount config (int (length files)) s - 1] \<and>
   (\<exists>evs. trace (snd (colorizeBatch env files config g s)) =
      trace s @ PageProcessing (batchIndices config (int (length files)) s) # evs)"
proof (intro conjI)
  show "batchCount config (int (length files)) s =
     min (if batchNumber s = 1 then 1
          else Min {batchNumber s, batchSize config, int (length (completedIndices s))})
       (int (length files) - currentIndex s)"
    by (simp add: batchCount_def)
  show "batchIndices config (int (length files)) s =
     [currentIndex s..currentIndex s + batchCount config (int (length files)) s - 1]"
    by (simp add: batchIndices_def arrayFrom_upto)
  show "\<exists>evs. trace (snd (colorizeBatch env files config g s)) =
      trace s @ PageProcessing (batchIndices config (int (length files)) s) # evs"
    by (simp add: colorizeBatch_eq Let_def split: option.splits)
qed

text \<open>
  Claim C10. At every batch of a chained run, every reference index is strictly below
  every page index of the batch.
\<close>

theorem references_precede_batch:
  "\<forall>r \<in> set (refIndices config (snd (processColorization n env files config g))).
     \<forall>p \<in> set (batchIndices config (int (length files))
                (snd (processColorization n env files config g))). r < p"
proof (intro ballI)
  define s where "s = snd (processColorization n env files config g)"
  fix r p
  assume "r \<in> set (refIndices config (snd (processColorization n env files config g)))"
    and "p \<in> set (batchIndices config (int (length files))
                (snd (processColorization n env files config g)))"
  then have r: "r \<in> set (refIndices config s)"
    and p: "p \<in> set (batchIndices config (int (length files)) s)"
    by (simp_all add: s_def)
  have inv: "colorizeInv env files config g s"
    unfolding s_def by (rule colorizeInv_run)
  have r_reg: "r \<in> set (completedIndices s)"
    using r by (auto simp add: refIndices_def Let_def dest: in_set_dropD)
  have p_range: "currentIndex s \<le> p" "p < currentIndex s + batchCount config (int (length files)) s"
    using p by (simp_all add: set_batchIndices)
  show "r < p"
  proof (cases "0 \<le> batchSize config")
    case True
    with inv r_reg have "r < currentIndex s"
      by (simp add: colorizeInv_def)
    with p_range show ?thesis by simp
  next
    case False
    from inv r_reg have "batchNumber s \<noteq> 1"
      by (auto simp add: colorizeInv_def)
    with False have "batchCount config (int (length files)) s < 0"
      by (simp add: batchCount_later)
    with p_range show ?thesis by simp
  qed
qed

text \<open>
  Four pages, after two iterations: the third batch is pages 2 and 3 and its references are
  pages 0 and 1.
\<close>

theorem references_precede_batch_witness:
  "refIndices demoConfig
     (snd (processColorization 2 demoEnv [''a'', ''b'', ''c'', ''d''] demoConfig demoResolver)) = [0, 1] \<and>
   batchIndices demoConfig (int (length [''a'', ''b'', ''c'', ''d'']))
     (snd (processColorization 2 demoEnv [''a'', ''b'', ''c'', ''d''] demoConfig demoResolver)) = [2, 3] \<and>
   last (refIndices demoConfig
     (snd (processColorization 2 demoEnv [''a'', ''b'', ''c'', ''d''] demoConfig demoResolver))) <
   hd (batchIndices demoConfig (int (length [''a'', ''b'', ''c'', ''d'']))
     (snd (processColorization 2 demoEnv [''a'', ''b'', ''c'', ''d''] demoConfig demoResolver)))"
proof -
  have refs: "refIndices demoConfig
     (snd (processColorization 2 demoEnv [''a'', ''b'', ''c'', ''d''] demoConfig demoResolver)) = [0, 1]"
    by (simp add: demo_run eval_nat_numeral)
  have batch: "batchIndices demoConfig (int (length [''a'', ''b'', ''c'', ''d'']))
     (snd (processColorization 2 demoEnv [''a'', ''b'', ''c'', ''d''] demoConfig demoResolver)) = [2, 3]"
    by (simp add: demo_run eval_nat_numeral)
  have "last (refIndices demoConfig
     (snd (processColorization 2 demoEnv [''a'', ''b'', ''c'', ''d''] demoConfig demoResolver))) \<in>
     set (refIndices demoConfig
     (snd (processColorization 2 demoEnv [''a'', ''b'', ''c'', ''d''] demoConfig demoResolver)))"
    and "hd (batchIndices demoConfig (int (length [''a'', ''b'', ''c'', ''d'']))
     (snd (processColorization 2 demoEnv [''a'', ''b'', ''c'', ''d''] demoConfig demoResolver))) \<in>
     set (batchIndices demoConfig (int (length [''a'', ''b'', ''c'', ''d'']))
     (snd (processColorization 2 demoEnv [''a'', ''b'', ''c'', ''d''] demoConfig demoResolver)))"
    unfolding refs batch by simp_all
  with references_precede_batch [of demoConfig 2 demoEnv "[''a'', ''b'', ''c'', ''d'']" demoResolver]
  have "last (refIndices demoConfig
     (snd (processColorization 2 demoEnv [''a'', ''b'', ''c'', ''d''] demoConfig demoResolver))) <
   hd (batchIndices demoConfig (int (length [''a'', ''b'', ''c'', ''d'']))
     (snd (processColorization 2 demoEnv [''a'', ''b'', ''c'', ''d''] demoConfig demoResolver)))"
    by blast
  with refs batch show ?thesis
    by blast
qed

text \<open>
  Claim C6. At every batch of a chained run with a batch size of at least 1, the reference
  list has exactly \<open>min batchSize completedCount\<close> entries, and they are the largest
  indices of the registry: distinct members of it, each above every member left out.
\<close>

theorem reference_window:
  assumes "1 \<le> batchSize config"
  shows "int (length (refIndices config (snd (processColorization n env files config g)))) =
       min (batchSize config)
         (int (length (completedIndices (snd (processColorization n env files config g))))) \<and>
     distinct (refIndices config (snd (processColorization n env files config g))) \<and>
     set (refIndices config (snd (processColorization n env files config g))) \<subseteq>
       set (completedIndices (snd (processColorization n env files config g))) \<and>
     (\<forall>x \<in> set (completedIndices (snd (processColorization n env files config g))) -
            set (refIndices config (snd (processColorization n env files config g))).
        \<forall>y \<in> set (refIndices config (snd (processColorization n env files config g))). x < y)"
proof -
  define s where "s = snd (processColorization n env files config g)"
  define k where "k = nat (max 0 (int (length (completedIndices s)) -
      min (batchSize config) (int (length (completedIndices s)))))"
  have refs: "refIndices config s = drop k (completedIndices s)"
    by (simp add: refIndices_def Let_def k_def)
  have inv: "colorizeInv env files config g s"
    unfolding s_def by (rule colorizeInv_run)
  then have srt: "sorted (completedIndices s)" and dst: "distinct (completedIndices s)"
    by (simp_all add: colorizeInv_def)
  have len: "int (length (refIndices config s)) =
      min (batchSize config) (int (length (completedIndices s)))"
    using assms by (simp add: refs k_def)
  have dist: "distinct (refIndices config s)"
    using dst by (simp add: refs)
  have sub: "set (refIndices config s) \<subseteq> set (completedIndices s)"
    by (simp add: refs set_drop_subset)
  have top: "\<forall>x \<in> set (completedIndices s) - set (refIndices config s).
        \<forall>y \<in> set (refIndices config s). x < y"
  proof (intro ballI)
    fix x y
    assume "x \<in> set (completedIndices s) - set (refIndices config s)"
      and y: "y \<in> set (refIndices config s)"
    then have "x \<in> set (take k (completedIndices s) @ drop k (completedIndices s))"
      and "x \<notin> set (drop k (completedIndices s))"
      by (simp_all add: refs)
    then have "x \<in> set (take k (completedIndices s))"
      unfolding set_append by blast
    from srt dst this y show "x < y"
      unfolding refs by (rule strict_take_drop)
  qed
  show ?thesis
    using len dist sub top unfolding s_def by blast
qed

text \<open>
  Three pages and a batch size of 1, after two iterations: the registry holds pages 0 and
  1, and the window is page 1 alone.
\<close>

theorem reference_window_witness:
  "1 \<le> batchSize (demoConfig\<lparr>batchSize := 1\<rparr>) \<and>
   completedIndices (snd (processColorization 2 demoEnv [''a'', ''b'', ''c'']
     (demoConfig\<lparr>batchSize := 1\<rparr>) demoResolver)) = [0, 1] \<and>
   refIndices (demoConfig\<lparr>batchSize := 1\<rparr>) (snd (processColorization 2 demoEnv [''a'', ''b'', ''c'']
     (demoConfig\<lparr>batchSize := 1\<rparr>) demoResolver)) = [1] \<and>
   int (length (refIndices (demoConfig\<lparr>batchSize := 1\<rparr>) (snd (processColorization 2 demoEnv
     [''a'', ''b'', ''c''] (demoConfig\<lparr>batchSize := 1\<rparr>) demoResolver)))) =
     min (batchSize (demoConfig\<lparr>batchSize := 1\<rparr>))
       (int (length (completedIndices (snd (processColorization 2 demoEnv [''a'', ''b'', ''c'']
          (demoConfig\<lparr>batchSize := 1\<rparr>) demoResolver)))))"
proof -
  have h: "1 \<le> batchSize (demoConfig\<lparr>batchSize := 1\<rparr>)"
    by simp
  have reg: "completedIndices (snd (processColorization 2 demoEnv [''a'', ''b'', ''c'']
     (demoConfig\<lparr>batchSize := 1\<rparr>) demoResolver)) = [0, 1]"
    by (simp add: demo_run eval_nat_numeral)
  have refs: "refIndices (demoConfig\<lparr>batchSize := 1\<rparr>) (snd (processColorization 2 demoEnv
     [''a'', ''b'', ''c''] (demoConfig\<lparr>batchSize := 1\<rparr>) demoResolver)) = [1]"
    by (simp add: demo_run eval_nat_numeral)
  show ?thesis
    using h reg refs
      reference_window [OF h, of 2 demoEnv "[''a'', ''b'', ''c'']" demoResolver]
    by blast
qed

text \<open>
  Claim C8. Throughout every chained run the registry has no index twice, is in ascending
  order and holds only indices whose task got a result from the remote call (and reported
  it). Each batch that does not reject appends exactly its pages that got a result, in
  ascending page order, whatever the order in which they settled.
\<close>

theorem completed_registry_ascending:
  "distinct (completedIndices (snd (processColorization n env files config g))) \<and>
   sorted (completedIndices (snd (processColorization n env files config g))) \<and>
   (\<forall>i \<in> set (completedIndices (snd (processColorization n env files config g))).
      \<exists>bn refs x xs.
        requestOutcome env files config g bn refs i = Inr (i, x # xs) \<and>
        PageComplete x i \<in> set (trace (snd (processColorization n env files config g)))) \<and>
   (colorizeBatch env files config g s = (None, s') \<longrightarrow>
      completedIndices s' = completedIndices s @
        filter (\<lambda>p. \<exists>x xs. requestOutcome env files config g (batchNumber s) (refIndices config s) p =
                  Inr (p, x # xs))
          (batchIndices config (int (length files)) s))"
proof -
  have inv: "colorizeInv env files config g (snd (processColorization n env files config g))"
    by (rule colorizeInv_run)
  have step: "completedIndices s' = completedIndices s @
        filter (\<lambda>p. \<exists>x xs. requestOutcome env files config g (batchNumber s) (refIndices config s) p =
                  Inr (p, x # xs))
          (batchIndices config (int (length files)) s)"
    if "colorizeBatch env files config g s = (None, s')"
    using colorizeBatch_advanced(1) [OF that]
    by (simp add: batchIndices_def sort_filter_settleOrder requestPushes_yielded)
  show ?thesis
    using inv step unfolding colorizeInv_def by blast
qed

text \<open>
  Four pages: the third batch is pages 2 and 3, page 3 settles first, and the registry is
  still ascending. When page 2 gets no result, the batch appends page 3 alone.
\<close>

theorem completed_registry_ascending_witness:
  "settleOrder demoEnv [2, 3] = [3, 2] \<and>
   completedIndices (snd (processColorization 3 demoEnv [''a'', ''b'', ''c'', ''d''] demoConfig demoResolver)) =
     [0, 1, 2, 3] \<and>
   distinct (completedIndices (snd (processColorization 3 demoEnv [''a'', ''b'', ''c'', ''d''] demoConfig demoResolver))) \<and>
   sorted (completedIndices (snd (processColorization 3 demoEnv [''a'', ''b'', ''c'', ''d''] demoConfig demoResolver))) \<and>
   (\<exists>bn refs x xs.
      requestOutcome demoEnv [''a'', ''b'', ''c'', ''d''] demoConfig demoResolver bn refs 3 = Inr (3, x # xs) \<and>
      PageComplete x 3 \<in> set (trace (snd (processColorization 3 demoEnv [''a'', ''b'', ''c'', ''d''] demoConfig demoResolver)))) \<and>
   colorizeBatch demoEnv [''a'', ''b'', ''empty'', ''d''] demoConfig demoResolver
     (snd (processColorization 2 demoEnv [''a'', ''b'', ''empty'', ''d''] demoConfig demoResolver)) =
     (None, snd (processColorization 3 demoEnv [''a'', ''b'', ''empty'', ''d''] demoConfig demoResolver)) \<and>
   completedIndices (snd (processColorization 3 demoEnv [''a'', ''b'', ''empty'', ''d''] demoConfig demoResolver)) =
     [0, 1, 3]"
proof -
  note inst = completed_registry_ascending [of 3 demoEnv "[''a'', ''b'', ''c'', ''d'']" demoConfig demoResolver]
  have order: "settleOrder demoEnv [2, 3] = [3, 2]"
    by (simp add: settleOrder_def demo_settleTime)
  have reg: "completedIndices (snd (processColorization 3 demoEnv [''a'', ''b'', ''c'', ''d''] demoConfig demoResolver)) =
     [0, 1, 2, 3]"
    by (simp add: demo_run eval_nat_numeral)
  have "3 \<in> set (completedIndices (snd (processColorization 3 demoEnv [''a'', ''b'', ''c'', ''d''] demoConfig demoResolver)))"
    unfolding reg by simp
  with inst have ex: "\<exists>bn refs x xs.
      requestOutcome demoEnv [''a'', ''b'', ''c'', ''d''] demoConfig demoResolver bn refs 3 = Inr (3, x # xs) \<and>
      PageComplete x 3 \<in> set (trace (snd (processColorization 3 demoEnv [''a'', ''b'', ''c'', ''d''] demoConfig demoResolver)))"
    by blast
  have step: "colorizeBatch demoEnv [''a'', ''b'', ''empty'', ''d''] demoConfig demoResolver
     (snd (processColorization 2 demoEnv [''a'', ''b'', ''empty'', ''d''] demoConfig demoResolver)) =
     (None, snd (processColorization 3 demoEnv [''a'', ''b'', ''empty'', ''d''] demoConfig demoResolver))"
    by (simp add: demo_run eval_nat_numeral)
  have reg': "completedIndices (snd (processColorization 3 demoEnv [''a'', ''b'', ''empty'', ''d''] demoConfig demoResolver)) =
     [0, 1, 3]"
    by (simp add: demo_run eval_nat_numeral)
  show ?thesis
    using order reg ex step reg' inst by blast
qed

text \<open>
  Claim C3, as the code has it. In chained mode the instruction prompt is the final part of
  every request: the label and image parts of the references that have an image come
  first, then the label and the image of the target page, then the colorization prompt. In
  flat mode a request is exactly two parts, the translation prompt first and the image of
  the target page last, with no label.
\<close>

theorem request_part_order:
  "(buildSinglePageRequest env pageIndex file refs g = Inr contents \<longrightarrow>
      (\<exists>base64 mimeType width height. contents =
         addReferenceImages g refs [] @
         [TextPart (''Colorize page '' @ numberToString (pageIndex + 1) @ '':''),
          ImagePart base64 mimeType,
          TextPart (getColorizationPrompt (int (length refs))
            (formatAspectRatioForPrompt env width height))])) \<and>
   addReferenceImages g refs [] =
     concat (map (\<lambda>refIdx. case g refIdx of
         None \<Rightarrow> []
       | Some refBase64 \<Rightarrow>
           if refBase64 = [] then []
           else [TextPart (''This is reference page '' @ numberToString (refIdx + 1) @
                   '' (already colorized):''),
                 ImagePart refBase64 ''image/png'']) refs) \<and>
   (\<forall>c \<in> set (submitted (requestEvents env files config g bn refs p)).
      buildSinglePageRequest env p (fileAt files p) refs g = Inr c) \<and>
   (\<forall>c \<in> set (submitted (translateEvents env files tconfig p)).
      \<exists>base64 mimeType. c =
        [TextPart (getTranslationPrompt (fromLanguage tconfig) (toLanguage tconfig)),
         ImagePart base64 mimeType])"
proof (intro conjI impI ballI)
  assume "buildSinglePageRequest env pageIndex file refs g = Inr contents"
  then show "\<exists>base64 mimeType width height. contents =
         addReferenceImages g refs [] @
         [TextPart (''Colorize page '' @ numberToString (pageIndex + 1) @ '':''),
          ImagePart base64 mimeType,
          TextPart (getColorizationPrompt (int (length refs))
            (formatAspectRatioForPrompt env width height))]"
    by (auto simp add: buildSinglePageRequest_def Let_def split: sum.splits)
next
  show "addReferenceImages g refs [] =
     concat (map (\<lambda>refIdx. case g refIdx of
         None \<Rightarrow> []
       | Some refBase64 \<Rightarrow>
           if refBase64 = [] then []
           else [TextPart (''This is reference page '' @ numberToString (refIdx + 1) @
                   '' (already colorized):''),
                 ImagePart refBase64 ''image/png'']) refs)"
    by (rule addReferenceImages_concat)
next
  fix c assume "c \<in> set (submitted (requestEvents env files config g bn refs p))"
  then show "buildSinglePageRequest env p (fileAt files p) refs g = Inr c"
    by (rule submitted_requestEvents)
next
  fix c assume "c \<in> set (submitted (translateEvents env files tconfig p))"
  then show "\<exists>base64 mimeType. c =
        [TextPart (getTranslationPrompt (fromLanguage tconfig) (toLanguage tconfig)),
         ImagePart base64 mimeType]"
    by (rule submitted_translateEvents)
qed

text \<open>The request of page 1 with page 0 as its reference, and a translation request.\<close>

theorem request_part_order_witness:
  "buildSinglePageRequest demoEnv 1 (Some ''b'') [0] demoResolver =
     Inr [TextPart ''This is reference page 1 (already colorized):'',
          ImagePart ''stored'' ''image/png'',
          TextPart ''Colorize page 2:'',
          ImagePart ''b'' ''image/jpeg'',
          TextPart (getColorizationPrompt 1 ''800x1200'')] \<and>
   (\<exists>base64 mimeType width height.
      [TextPart ''This is reference page 1 (already colorized):'',
       ImagePart ''stored'' ''image/png'',
       TextPart ''Colorize page 2:'',
       ImagePart ''b'' ''image/jpeg'',
       TextPart (getColorizationPrompt 1 ''800x1200'')] =
      addReferenceImages demoResolver [0] [] @
      [TextPart (''Colorize page '' @ numberToString (1 + 1) @ '':''),
       ImagePart base64 mimeType,
       TextPart (getColorizationPrompt (int (length [0::int]))
         (formatAspectRatioForPrompt demoEnv width height))]) \<and>
   submitted (translateEvents demoEnv [''a''] demoTranslateConfig 0) =
     [[TextPart (getTranslationPrompt ''Japanese'' ''English''), ImagePart ''a'' ''image/jpeg'']]"
proof -
  have built: "buildSinglePageRequest demoEnv 1 (Some ''b'') [0] demoResolver =
     Inr [TextPart ''This is reference page 1 (already colorized):'',
          ImagePart ''stored'' ''image/png'',
          TextPart ''Colorize page 2:'',
          ImagePart ''b'' ''image/jpeg'',
          TextPart (getColorizationPrompt 1 ''800x1200'')]"
    by (simp add: buildSinglePageRequest_def demo_fields demoResolver_def numberToString_def
        digits.simps)
  have sent: "submitted (translateEvents demoEnv [''a''] demoTranslateConfig 0) =
     [[TextPart (getTranslationPrompt ''Japanese'' ''English''), ImagePart ''a'' ''image/jpeg'']]"
    by (simp add: demo_translateEvents fileAt_def demoTranslateConfig_def)
  show ?thesis
    using built sent
      request_part_order [of demoEnv 1 "Some ''b''" "[0]" demoResolver
        "[TextPart ''This is reference page 1 (already colorized):'',
          ImagePart ''stored'' ''image/png'',
          TextPart ''Colorize page 2:'',
          ImagePart ''b'' ''image/jpeg'',
          TextPart (getColorizationPrompt 1 ''800x1200'')]"]
    by blast
qed

text \<open>
  Claim C3 as stated fails in flat mode: the one request of a one-page translation run ends
  with the image, and its prompt is the first part.
\<close>

theorem instruction_last_counterexample:
  "submitted (snd (processTranslation 1 demoEnv [''a''] demoTranslateConfig)) =
     [[TextPart (getTranslationPrompt ''Japanese'' ''English''), ImagePart ''a'' ''image/jpeg'']] \<and>
   last (hd (submitted (snd (processTranslation 1 demoEnv [''a''] demoTranslateConfig)))) \<noteq>
     TextPart (getTranslationPrompt (fromLanguage demoTranslateConfig) (toLanguage demoTranslateConfig))"
  by (simp add: demo_translate_run eval_nat_numeral demo_translateEvents demoTranslateConfig_def
      del: translateLoop.simps(2))

text \<open>
  Claim C4. In flat mode, when a remote call of the run returns an empty result, the task of
  its page throws \<^verbatim>\<open>No image result for page ...\<close>; nothing catches it, so the run's promise
  is rejected and stays so. The error it carries is that of the first task of the batch
  to fail, in the order the tasks settle. The batch of that call is the last one announced:
  no \<^verbatim>\<open>onPageProcessing\<close> follows it.
\<close>

theorem empty_result_rejects_translation:
  assumes "RemoteCall k c r rid \<in> set (snd (processTranslation n env files config))"
    and "callGeminiImageAPI env k c r rid = Inr []"
  shows "\<exists>e pre b evs p.
      (\<forall>m. processTranslation (n + m) env files config = (Rejected e, pre @ PageProcessing b # evs)) \<and>
      batches evs = [] \<and>
      RemoteCall k c r rid \<in> set evs \<and>
      p \<in> set b \<and>
      translateOutcome env files config p =
        Inl (Error (''No image result for page '' @ numberToString (p + 1))) \<and>
      firstRejection (map (translateOutcome env files config) (settleOrder env b)) = Some e \<and>
      (\<exists>q \<in> set b. translateOutcome env files config q = Inl e)"
proof -
  have "\<forall>k c r rid. RemoteCall k c r rid \<in> set [] \<longrightarrow> callGeminiImageAPI env k c r rid \<noteq> Inr []"
    by simp
  from translateLoop_empty_rejects [OF this assms(1) [unfolded processTranslation_def] assms(2)]
  obtain e pre b evs p where
    run: "translateLoop n env files config 0 [] = (Rejected e, pre @ PageProcessing b # evs)"
    and rest: "batches evs = []" "RemoteCall k c r rid \<in> set evs" "p \<in> set b"
      "translateOutcome env files config p =
        Inl (Error (''No image result for page '' @ numberToString (p + 1)))"
      "firstRejection (map (translateOutcome env files config) (settleOrder env b)) = Some e"
    by blast
  have "\<forall>m. processTranslation (n + m) env files config = (Rejected e, pre @ PageProcessing b # evs)"
    using run translateLoop_settled [of n env files config 0 "[]"]
    by (simp add: processTranslation_def)
  moreover have "\<exists>q \<in> set b. translateOutcome env files config q = Inl e"
    using firstRejection_Some_mem [OF rest(5)] by (auto simp add: set_settleOrder)
  ultimately show ?thesis
    using rest by blast
qed

text \<open>
  Three pages in batches of two, the remote call of page 1 returning nothing: the run is
  rejected in its first batch and page 2 is never announced.
\<close>

theorem empty_result_rejects_translation_witness:
  "RemoteCall ''key''
     [TextPart (getTranslationPrompt ''Japanese'' ''English''), ImagePart ''empty'' ''image/jpeg'']
     ''1K'' ''translate_page_1_0''
     \<in> set (snd (processTranslation 1 demoEnv [''a'', ''empty'', ''c''] demoTranslateConfig)) \<and>
   callGeminiImageAPI demoEnv ''key''
     [TextPart (getTranslationPrompt ''Japanese'' ''English''), ImagePart ''empty'' ''image/jpeg'']
     ''1K'' ''translate_page_1_0'' = Inr [] \<and>
   fst (processTranslation 1 demoEnv [''a'', ''empty'', ''c''] demoTranslateConfig) =
     Rejected (Error ''No image result for page 2'') \<and>
   batches (snd (processTranslation 1 demoEnv [''a'', ''empty'', ''c''] demoTranslateConfig)) = [[0, 1]] \<and>
   (\<exists>e pre b evs.
      (\<forall>m. processTranslation (1 + m) demoEnv [''a'', ''empty'', ''c''] demoTranslateConfig =
         (Rejected e, pre @ PageProcessing b # evs)) \<and>
      batches evs = [])"
proof -
  have call: "RemoteCall ''key''
     [TextPart (getTranslationPrompt ''Japanese'' ''English''), ImagePart ''empty'' ''image/jpeg'']
     ''1K'' ''translate_page_1_0''
     \<in> set (snd (processTranslation 1 demoEnv [''a'', ''empty'', ''c''] demoTranslateConfig))"
    by (simp add: demo_translate_run demo_translateEvents demoTranslateConfig_def numberToString_def
        digits.simps eval_nat_numeral del: translateLoop.simps(2))
  have empty: "callGeminiImageAPI demoEnv ''key''
     [TextPart (getTranslationPrompt ''Japanese'' ''English''), ImagePart ''empty'' ''image/jpeg'']
     ''1K'' ''translate_page_1_0'' = Inr []"
    by (simp add: demoEnv_def)
  have rejected: "fst (processTranslation 1 demoEnv [''a'', ''empty'', ''c''] demoTranslateConfig) =
     Rejected (Error ''No image result for page 2'')"
    by (simp add: demo_translate_run numberToString_def digits.simps eval_nat_numeral
        del: translateLoop.simps(2))
  have announced: "batches (snd (processTranslation 1 demoEnv [''a'', ''empty'', ''c''] demoTranslateConfig)) =
     [[0, 1]]"
    by (simp add: demo_translate_run batches_append batches_translateEvents eval_nat_numeral
        del: translateLoop.simps(2))
  from empty_result_rejects_translation [OF call empty]
  have "\<exists>e pre b evs.
      (\<forall>m. processTranslation (1 + m) demoEnv [''a'', ''empty'', ''c''] demoTranslateConfig =
         (Rejected e, pre @ PageProcessing b # evs)) \<and>
      batches evs = []"
    by blast
  with call empty rejected announced show ?thesis
    by blast
qed

text \<open>
  Claim C1, as the code has it. The task of a page raises when its request cannot be built
  (a decode error) or when the remote call raises a fault, and otherwise settles with the
  list the remote call returned. In chained mode an empty result is absorbed as a skip: a
  batch none of whose tasks raises does not reject, it appends to the registry only its
  pages that got a result, the cursor moves past the whole batch and the loop goes on. A
  task that raises is not absorbed: the run's promise is rejected in that iteration with the
  error of the first task of the batch to fail, the registry is left as it was and the
  batch is the last one announced. The promise is rejected in no other way.
\<close>

theorem chained_failures:
  "requestOutcome env files config g bn refs p =
     (case buildSinglePageRequest env p (fileAt files p) refs g of
        Inl e \<Rightarrow> Inl e
      | Inr contents \<Rightarrow>
         (case callGeminiImageAPI env (apiKey config) contents
                 (formatResolution env (resolution config))
                 (''colorize_batch'' @ numberToString bn @ ''_page'' @ numberToString (p + 1) @
                  ''_'' @ numberToString (dateNow env p)) of
            Inl e \<Rightarrow> Inl e
          | Inr results \<Rightarrow> Inr (p, results))) \<and>
   (currentIndex s < int (length files) \<and>
    (\<forall>q \<in> set (batchIndices config (int (length files)) s). \<forall>e.
        requestOutcome env files config g (batchNumber s) (refIndices config s) q \<noteq> Inl e) \<longrightarrow>
    (\<exists>s'. colorizeBatch env files config g s = (None, s') \<and>
       completedIndices s' = completedIndices s @
         filter (\<lambda>q. \<exists>x xs. requestOutcome env files config g (batchNumber s) (refIndices config s) q =
                   Inr (q, x # xs))
           (batchIndices config (int (length files)) s) \<and>
       currentIndex s' = currentIndex s + batchCount config (int (length files)) s \<and>
       colorizeLoop (Suc n) env files config g s = colorizeLoop n env files config g s')) \<and>
   (currentIndex s < int (length files) \<and>
    (\<exists>q \<in> set (batchIndices config (int (length files)) s). \<exists>e.
        requestOutcome env files config g (batchNumber s) (refIndices config s) q = Inl e) \<longrightarrow>
    (\<exists>e s'. colorizeLoop (Suc n) env files config g s = (Rejected e, s') \<and>
       firstRejection (map (requestOutcome env files config g (batchNumber s) (refIndices config s))
         (settleOrder env (batchIndices config (int (length files)) s))) = Some e \<and>
       completedIndices s' = completedIndices s \<and>
       batches (trace s') = batches (trace s) @ [batchIndices config (int (length files)) s])) \<and>
   (fst (processColorization n env files config g) = Rejected e \<longrightarrow>
      (\<exists>bn refs p. requestOutcome env files config g bn refs p = Inl e))"
proof (intro conjI impI)
  show "requestOutcome env files config g bn refs p =
     (case buildSinglePageRequest env p (fileAt files p) refs g of
        Inl e \<Rightarrow> Inl e
      | Inr contents \<Rightarrow>
         (case callGeminiImageAPI env (apiKey config) contents
                 (formatResolution env (resolution config))
                 (''colorize_batch'' @ numberToString bn @ ''_page'' @ numberToString (p + 1) @
                  ''_'' @ numberToString (dateNow env p)) of
            Inl e \<Rightarrow> Inl e
          | Inr results \<Rightarrow> Inr (p, results)))"
    by (rule requestOutcome_cases)
next
  define order where "order = settleOrder env (batchIndices config (int (length files)) s)"
  assume "currentIndex s < int (length files) \<and>
    (\<forall>q \<in> set (batchIndices config (int (length files)) s). \<forall>e.
        requestOutcome env files config g (batchNumber s) (refIndices config s) q \<noteq> Inl e)"
  then have guard: "currentIndex s < int (length files)"
    and "firstRejection (map (requestOutcome env files config g (batchNumber s) (refIndices config s)) order) = None"
    by (auto simp add: firstRejection_None order_def set_settleOrder)
  then obtain s' where step: "colorizeBatch env files config g s = (None, s')"
    by (simp add: colorizeBatch_eq Let_def order_def)
  have "completedIndices s' = completedIndices s @
         filter (\<lambda>q. \<exists>x xs. requestOutcome env files config g (batchNumber s) (refIndices config s) q =
                   Inr (q, x # xs))
           (batchIndices config (int (length files)) s)"
    using colorizeBatch_advanced(1) [OF step]
    by (simp add: batchIndices_def sort_filter_settleOrder requestPushes_yielded)
  moreover have "currentIndex s' = currentIndex s + batchCount config (int (length files)) s"
    by (rule colorizeBatch_advanced(2) [OF step])
  moreover have "colorizeLoop (Suc n) env files config g s = colorizeLoop n env files config g s'"
    using guard step by simp
  ultimately show "\<exists>s'. colorizeBatch env files config g s = (None, s') \<and>
       completedIndices s' = completedIndices s @
         filter (\<lambda>q. \<exists>x xs. requestOutcome env files config g (batchNumber s) (refIndices config s) q =
                   Inr (q, x # xs))
           (batchIndices config (int (length files)) s) \<and>
       currentIndex s' = currentIndex s + batchCount config (int (length files)) s \<and>
       colorizeLoop (Suc n) env files config g s = colorizeLoop n env files config g s'"
    using step by blast
next
  define order where "order = settleOrder env (batchIndices config (int (length files)) s)"
  assume "currentIndex s < int (length files) \<and>
    (\<exists>q \<in> set (batchIndices config (int (length files)) s). \<exists>e.
        requestOutcome env files config g (batchNumber s) (refIndices config s) q = Inl e)"
  then have guard: "currentIndex s < int (length files)"
    and "firstRejection (map (requestOutcome env files config g (batchNumber s) (refIndices config s)) order) \<noteq> None"
    by (auto simp add: firstRejection_None order_def set_settleOrder)
  then obtain e where e: "firstRejection
      (map (requestOutcome env files config g (batchNumber s) (refIndices config s)) order) = Some e"
    by blast
  then obtain s' where step: "colorizeBatch env files config g s = (Some e, s')"
    by (simp add: colorizeBatch_eq Let_def order_def)
  have "colorizeLoop (Suc n) env files config g s = (Rejected e, s')"
    using guard step by simp
  moreover have "completedIndices s' = completedIndices s"
    by (rule colorizeBatch_rejected(1) [OF step])
  moreover have "batches (trace s') = batches (trace s) @ [batchIndices config (int (length files)) s]"
    by (simp add: colorizeBatch_rejected(4) [OF step] batches_append batches_concat_requestEvents)
  ultimately show "\<exists>e s'. colorizeLoop (Suc n) env files config g s = (Rejected e, s') \<and>
       firstRejection (map (requestOutcome env files config g (batchNumber s) (refIndices config s))
         (settleOrder env (batchIndices config (int (length files)) s))) = Some e \<and>
       completedIndices s' = completedIndices s \<and>
       batches (trace s') = batches (trace s) @ [batchIndices config (int (length files)) s]"
    using e unfolding order_def by blast
next
  assume "fst (processColorization n env files config g) = Rejected e"
  then show "\<exists>bn refs p. requestOutcome env files config g bn refs p = Inl e"
    unfolding processColorization_def by (rule colorizeLoop_rejected_cause)
qed

text \<open>
  Two pages. When the remote call of page 0 returns nothing, the first batch does not
  reject and leaves the registry empty; when it raises a fault, the run is rejected.
\<close>

theorem chained_failures_witness:
  "requestOutcome demoEnv [''empty'', ''b''] demoConfig demoResolver 1 [] 0 = Inr (0, []) \<and>
   fst (colorizeBatch demoEnv [''empty'', ''b''] demoConfig demoResolver
     \<lparr>completedIndices = [], currentIndex = 0, batchNumber = 1, trace = []\<rparr>) = None \<and>
   completedIndices (snd (colorizeBatch demoEnv [''empty'', ''b''] demoConfig demoResolver
     \<lparr>completedIndices = [], currentIndex = 0, batchNumber = 1, trace = []\<rparr>)) = [] \<and>
   currentIndex (snd (colorizeBatch demoEnv [''empty'', ''b''] demoConfig demoResolver
     \<lparr>completedIndices = [], currentIndex = 0, batchNumber = 1, trace = []\<rparr>)) = 1 \<and>
   requestOutcome demoEnv [''fault'', ''b''] demoConfig demoResolver 1 [] 0 =
     Inl (Error ''remote fault'') \<and>
   fst (processColorization 1 demoEnv [''fault'', ''b''] demoConfig demoResolver) =
     Rejected (Error ''remote fault'') \<and>
   (\<exists>bn refs p. requestOutcome demoEnv [''fault'', ''b''] demoConfig demoResolver bn refs p =
      Inl (Error ''remote fault''))"
proof -
  have skipped: "requestOutcome demoEnv [''empty'', ''b''] demoConfig demoResolver 1 [] 0 = Inr (0, [])"
    by (simp add: demo_requestOutcome fileAt_def)
  have advanced: "fst (colorizeBatch demoEnv [''empty'', ''b''] demoConfig demoResolver
     \<lparr>completedIndices = [], currentIndex = 0, batchNumber = 1, trace = []\<rparr>) = None"
    "completedIndices (snd (colorizeBatch demoEnv [''empty'', ''b''] demoConfig demoResolver
     \<lparr>completedIndices = [], currentIndex = 0, batchNumber = 1, trace = []\<rparr>)) = []"
    "currentIndex (snd (colorizeBatch demoEnv [''empty'', ''b''] demoConfig demoResolver
     \<lparr>completedIndices = [], currentIndex = 0, batchNumber = 1, trace = []\<rparr>)) = 1"
    by (simp_all add: demo_run)
  have raised: "requestOutcome demoEnv [''fault'', ''b''] demoConfig demoResolver 1 [] 0 =
     Inl (Error ''remote fault'')"
    by (simp add: demo_requestOutcome fileAt_def)
  have rejected: "fst (processColorization 1 demoEnv [''fault'', ''b''] demoConfig demoResolver) =
     Rejected (Error ''remote fault'')"
    by (simp add: demo_run)
  from rejected chained_failures [of demoEnv "[''fault'', ''b'']" demoConfig demoResolver _ _ _ _ 1
      "Error ''remote fault''"]
  have "\<exists>bn refs p. requestOutcome demoEnv [''fault'', ''b''] demoConfig demoResolver bn refs p =
      Inl (Error ''remote fault'')"
    by blast
  with skipped advanced raised rejected show ?thesis
    by blast
qed

text \<open>
  Claim C1 as stated fails: a remote fault, or a file that cannot be decoded, on the first
  of two pages rejects the run's promise, and page 1 is never announced.
\<close>

theorem chained_failures_counterexample:
  "fst (processColorization 1 demoEnv [''fault'', ''b''] demoConfig demoResolver) =
     Rejected (Error ''remote fault'') \<and>
   fst (processColorization 1 demoEnv ['''', ''b''] demoConfig demoResolver) =
     Rejected (Error ''cannot decode'') \<and>
   batches (trace (snd (processColorization 5 demoEnv [''fault'', ''b''] demoConfig demoResolver))) = [[0]]"
  by (simp add: demo_run eval_nat_numeral batches_append batches_requestEvents)

text \<open>
  Claim C2 is right about the registry and the code misses the termination it promises.
  Two pages, the remote call of page 0 returning an empty result (that of page 1 would
  return an image): page 0 never enters the registry, but from the second iteration on the
  planned batch is \<open>min (batchNumber, batchSize, 0) = 0\<close> pages wide, the cursor stays at 1,
  and after any number of iterations the promise is still pending.
\<close>

theorem first_page_empty_never_resolves:
  "fst (processColorization n demoEnv [''empty'', ''b''] demoConfig demoResolver) = Pending \<and>
   completedIndices (snd (processColorization n demoEnv [''empty'', ''b''] demoConfig demoResolver)) = [] \<and>
   currentIndex (snd (processColorization n demoEnv [''empty'', ''b''] demoConfig demoResolver)) < 2 \<and>
   requestOutcome demoEnv [''empty'', ''b''] demoConfig demoResolver 1 [] 0 = Inr (0, []) \<and>
   requestOutcome demoEnv [''empty'', ''b''] demoConfig demoResolver bn refs 1 = Inr (1, [''done''])"
proof (cases n)
  case 0
  then show ?thesis
    by (simp add: processColorization_def demo_requestOutcome fileAt_def)
next
  case (Suc m)
  define s1 where "s1 = snd (colorizeBatch demoEnv [''empty'', ''b''] demoConfig demoResolver
     \<lparr>completedIndices = [], currentIndex = 0, batchNumber = 1, trace = []\<rparr>)"
  have first: "colorizeBatch demoEnv [''empty'', ''b''] demoConfig demoResolver
     \<lparr>completedIndices = [], currentIndex = 0, batchNumber = 1, trace = []\<rparr> = (None, s1)"
    "completedIndices s1 = []" "currentIndex s1 = 1" "batchNumber s1 = 2"
    unfolding s1_def by (simp_all add: demo_run)
  have run: "processColorization n demoEnv [''empty'', ''b''] demoConfig demoResolver =
      colorizeLoop m demoEnv [''empty'', ''b''] demoConfig demoResolver s1"
    using first(1) by (simp add: Suc processColorization_def)
  have "\<exists>s'. colorizeLoop m demoEnv [''empty'', ''b''] demoConfig demoResolver s1 = (Pending, s') \<and>
     completedIndices s' = [] \<and> currentIndex s' = currentIndex s1"
    by (rule colorizeLoop_stuck) (simp_all add: first demo_batchSize)
  then show ?thesis
    using first(3) by (auto simp add: run demo_requestOutcome fileAt_def)
qed

text \<open>
  Claim C7, as the code has it. With a batch size of at least 1, in both modes, the batches
  announced follow one another from page 0 without gap or overlap: at every moment of
  every run their concatenation is \<open>0, 1, \<dots>, k - 1\<close> for some \<open>k\<close> up to the number of
  pages. A run is rejected only when the task of a page of the batch just announced raises
  (in flat mode an empty result raises too); a rejected run stays as it is, so it announces
  no further batch. A run that is not rejected and, in chained mode, whose first page gets
  a result, is resolved after as many iterations as there are pages, and the batches it
  announced are exactly the pages \<open>0, \<dots>, totalPages - 1\<close>.
\<close>

theorem batches_partition_pages:
  assumes "1 \<le> batchSize config" "1 \<le> batchSize tconfig"
  shows "(\<exists>k \<le> length files.
        concat (batches (trace (snd (processColorization n env files config g)))) = map int [0..<k]) \<and>
     ((\<forall>e. fst (processColorization n env files config g) \<noteq> Rejected e) \<and>
      (\<exists>x xs. requestOutcome env files config g 1 [] 0 = Inr (0, x # xs)) \<and>
      length files \<le> n \<longrightarrow>
        fst (processColorization n env files config g) = Resolved \<and>
        concat (batches (trace (snd (processColorization n env files config g)))) =
          map int [0..<length files]) \<and>
     (fst (processColorization n env files config g) = Rejected e \<longrightarrow>
        (\<forall>m. processColorization (n + m) env files config g = processColorization n env files config g) \<and>
        (\<exists>m < n. fst (processColorization m env files config g) = Pending \<and>
           (\<exists>q \<in> set (batchIndices config (int (length files))
                      (snd (processColorization m env files config g))).
              requestOutcome env files config g
                (batchNumber (snd (processColorization m env files config g)))
                (refIndices config (snd (processColorization m env files config g))) q = Inl e))) \<and>
     (\<exists>k \<le> length files.
        concat (batches (snd (processTranslation n env files tconfig))) = map int [0..<k]) \<and>
     ((\<forall>e. fst (processTranslation n env files tconfig) \<noteq> Rejected e) \<and>
      length files \<le> n \<longrightarrow>
        fst (processTranslation n env files tconfig) = Resolved \<and>
        concat (batches (snd (processTranslation n env files tconfig))) = map int [0..<length files]) \<and>
     (fst (processTranslation n env files tconfig) = Rejected e \<longrightarrow>
        (\<forall>m. processTranslation (n + m) env files tconfig = processTranslation n env files tconfig) \<and>
        (\<exists>q \<in> set (concat (batches (snd (processTranslation n env files tconfig)))).
           translateOutcome env files tconfig q = Inl e))"
proof (intro conjI impI)
  show "\<exists>k \<le> length files.
        concat (batches (trace (snd (processColorization n env files config g)))) = map int [0..<k]"
    unfolding processColorization_def
    using assms(1) by (intro colorizeLoop_prefix) simp_all
next
  assume h: "(\<forall>e. fst (processColorization n env files config g) \<noteq> Rejected e) \<and>
      (\<exists>x xs. requestOutcome env files config g 1 [] 0 = Inr (0, x # xs)) \<and>
      length files \<le> n"
  have "fst (processColorization n env files config g) = Resolved \<and>
        concat (batches (trace (snd (processColorization n env files config g)))) =
          map int [0..<length files]"
    unfolding processColorization_def
    using assms(1) h [unfolded processColorization_def] by (intro colorizeLoop_completes) simp_all
  then show "fst (processColorization n env files config g) = Resolved"
    and "concat (batches (trace (snd (processColorization n env files config g)))) =
          map int [0..<length files]"
    by simp_all
next
  assume "fst (processColorization n env files config g) = Rejected e"
  then show "\<forall>m. processColorization (n + m) env files config g = processColorization n env files config g"
    unfolding processColorization_def by (simp add: colorizeLoop_settled)
next
  assume "fst (processColorization n env files config g) = Rejected e"
  then show "\<exists>m < n. fst (processColorization m env files config g) = Pending \<and>
           (\<exists>q \<in> set (batchIndices config (int (length files))
                      (snd (processColorization m env files config g))).
              requestOutcome env files config g
                (batchNumber (snd (processColorization m env files config g)))
                (refIndices config (snd (processColorization m env files config g))) q = Inl e)"
    unfolding processColorization_def by (rule colorizeLoop_rejected_task)
next
  show "\<exists>k \<le> length files.
        concat (batches (snd (processTranslation n env files tconfig))) = map int [0..<k]"
    unfolding processTranslation_def
    using assms(2) by (intro translateLoop_prefix) simp_all
next
  assume h: "(\<forall>e. fst (processTranslation n env files tconfig) \<noteq> Rejected e) \<and>
      length files \<le> n"
  have "fst (processTranslation n env files tconfig) = Resolved \<and>
        concat (batches (snd (processTranslation n env files tconfig))) = map int [0..<length files]"
    unfolding processTranslation_def
    using assms(2) h [unfolded processTranslation_def] by (intro translateLoop_completes) simp_all
  then show "fst (processTranslation n env files tconfig) = Resolved"
    and "concat (batches (snd (processTranslation n env files tconfig))) = map int [0..<length files]"
    by simp_all
next
  assume "fst (processTranslation n env files tconfig) = Rejected e"
  then show "\<forall>m. processTranslation (n + m) env files tconfig = processTranslation n env files tconfig"
    unfolding processTranslation_def by (simp add: translateLoop_settled)
next
  assume "fst (processTranslation n env files tconfig) = Rejected e"
  then show "\<exists>q \<in> set (concat (batches (snd (processTranslation n env files tconfig)))).
           translateOutcome env files tconfig q = Inl e"
    unfolding processTranslation_def by (rule translateLoop_rejected_task)
qed

text \<open>
  Four pages that all get a result, in both modes: neither run is rejected and both
  announce all four pages. Three pages with a remote fault on page 1: both runs are
  rejected in the batch that holds page 1 and stay so.
\<close>

theorem batches_partition_pages_witness:
  "1 \<le> batchSize demoConfig \<and> 1 \<le> batchSize demoTranslateConfig \<and>
   fst (processColorization 4 demoEnv [''a'', ''b'', ''c'', ''d''] demoConfig demoResolver) = Resolved \<and>
   requestOutcome demoEnv [''a'', ''b'', ''c'', ''d''] demoConfig demoResolver 1 [] 0 = Inr (0, [''done'']) \<and>
   batches (trace (snd (processColorization 4 demoEnv [''a'', ''b'', ''c'', ''d''] demoConfig demoResolver))) =
     [[0], [1], [2, 3]] \<and>
   concat (batches (trace (snd (processColorization 4 demoEnv [''a'', ''b'', ''c'', ''d''] demoConfig
     demoResolver)))) = map int [0..<length [''a'', ''b'', ''c'', ''d'']] \<and>
   fst (processTranslation 4 demoEnv [''a'', ''b'', ''c'', ''d''] demoTranslateConfig) = Resolved \<and>
   concat (batches (snd (processTranslation 4 demoEnv [''a'', ''b'', ''c'', ''d''] demoTranslateConfig))) =
     map int [0..<length [''a'', ''b'', ''c'', ''d'']] \<and>
   fst (processColorization 2 demoEnv [''a'', ''fault'', ''c''] demoConfig demoResolver) =
     Rejected (Error ''remote fault'') \<and>
   (\<forall>m. processColorization (2 + m) demoEnv [''a'', ''fault'', ''c''] demoConfig demoResolver =
      processColorization 2 demoEnv [''a'', ''fault'', ''c''] demoConfig demoResolver) \<and>
   fst (processTranslation 1 demoEnv [''a'', ''fault'', ''c''] demoTranslateConfig) =
     Rejected (Error ''remote fault'') \<and>
   (\<forall>m. processTranslation (1 + m) demoEnv [''a'', ''fault'', ''c''] demoTranslateConfig =
      processTranslation 1 demoEnv [''a'', ''fault'', ''c''] demoTranslateConfig)"
proof -
  have sizes: "1 \<le> batchSize demoConfig" "1 \<le> batchSize demoTranslateConfig"
    by (simp_all add: demoConfig_def demoTranslateConfig_def)
  have chained: "fst (processColorization 4 demoEnv [''a'', ''b'', ''c'', ''d''] demoConfig demoResolver) =
      Resolved"
    by (simp add: demo_run eval_nat_numeral)
  then have chained_accepted:
    "\<forall>e. fst (processColorization 4 demoEnv [''a'', ''b'', ''c'', ''d''] demoConfig demoResolver) \<noteq>
       Rejected e"
    by simp
  have seed: "requestOutcome demoEnv [''a'', ''b'', ''c'', ''d''] demoConfig demoResolver 1 [] 0 =
      Inr (0, [''done''])"
    by (simp add: demo_requestOutcome fileAt_def)
  have flat: "fst (processTranslation 4 demoEnv [''a'', ''b'', ''c'', ''d''] demoTranslateConfig) = Resolved"
    by (simp add: demo_translate_run eval_nat_numeral del: translateLoop.simps(2))
  then have flat_accepted:
    "\<forall>e. fst (processTranslation 4 demoEnv [''a'', ''b'', ''c'', ''d''] demoTranslateConfig) \<noteq> Rejected e"
    by simp
  have fuel: "length [''a'', ''b'', ''c'', ''d''] \<le> 4"
    by simp
  have announced: "batches (trace (snd (processColorization 4 demoEnv [''a'', ''b'', ''c'', ''d''] demoConfig
      demoResolver))) = [[0], [1], [2, 3]]"
    by (simp add: demo_run eval_nat_numeral batches_append batches_requestEvents)
  have chained_rejected:
    "fst (processColorization 2 demoEnv [''a'', ''fault'', ''c''] demoConfig demoResolver) =
       Rejected (Error ''remote fault'')"
    by (simp add: demo_run eval_nat_numeral)
  have flat_rejected:
    "fst (processTranslation 1 demoEnv [''a'', ''fault'', ''c''] demoTranslateConfig) =
       Rejected (Error ''remote fault'')"
    by (simp add: demo_translate_run eval_nat_numeral del: translateLoop.simps(2))
  note all_pages = batches_partition_pages [OF sizes, of "[''a'', ''b'', ''c'', ''d'']" 4 demoEnv demoResolver]
  note chained_stop = batches_partition_pages [OF sizes, of "[''a'', ''fault'', ''c'']" 2 demoEnv
      demoResolver "Error ''remote fault''"]
  note flat_stop = batches_partition_pages [OF sizes, of "[''a'', ''fault'', ''c'']" 1 demoEnv
      demoResolver "Error ''remote fault''"]
  have completed: "concat (batches (trace (snd (processColorization 4 demoEnv [''a'', ''b'', ''c'', ''d'']
      demoConfig demoResolver)))) = map int [0..<length [''a'', ''b'', ''c'', ''d'']]"
    "concat (batches (snd (processTranslation 4 demoEnv [''a'', ''b'', ''c'', ''d''] demoTranslateConfig))) =
      map int [0..<length [''a'', ''b'', ''c'', ''d'']]"
    using all_pages chained_accepted flat_accepted seed fuel by blast+
  have stays: "\<forall>m. processColorization (2 + m) demoEnv [''a'', ''fault'', ''c''] demoConfig demoResolver =
      processColorization 2 demoEnv [''a'', ''fault'', ''c''] demoConfig demoResolver"
    "\<forall>m. processTranslation (1 + m) demoEnv [''a'', ''fault'', ''c''] demoTranslateConfig =
      processTranslation 1 demoEnv [''a'', ''fault'', ''c''] demoTranslateConfig"
    using chained_stop chained_rejected flat_stop flat_rejected by blast+
  show ?thesis
    using sizes chained seed announced completed flat chained_rejected flat_rejected stays
    by blast
qed

text \<open>
  Claim C7 as stated fails in a run that is rejected: with a remote fault on page 1 of
  three pages, in either mode, page 2 is never announced.
\<close>

theorem batches_partition_pages_counterexample:
  "1 \<le> batchSize demoTranslateConfig \<and>
   fst (processTranslation 3 demoEnv [''a'', ''fault'', ''c''] demoTranslateConfig) =
     Rejected (Error ''remote fault'') \<and>
   concat (batches (snd (processTranslation 3 demoEnv [''a'', ''fault'', ''c''] demoTranslateConfig))) =
     [0, 1] \<and>
   2 \<notin> set (concat (batches (snd (processTranslation 3 demoEnv [''a'', ''fault'', ''c'']
     demoTranslateConfig)))) \<and>
   1 \<le> batchSize demoConfig \<and>
   fst (processColorization 3 demoEnv [''a'', ''fault'', ''c''] demoConfig demoResolver) =
     Rejected (Error ''remote fault'') \<and>
   concat (batches (trace (snd (processColorization 3 demoEnv [''a'', ''fault'', ''c''] demoConfig
     demoResolver)))) = [0, 1] \<and>
   2 \<notin> set (concat (batches (trace (snd (processColorization 3 demoEnv [''a'', ''fault'', ''c'']
     demoConfig demoResolver)))))"
proof -
  have flat: "fst (processTranslation 3 demoEnv [''a'', ''fault'', ''c''] demoTranslateConfig) =
     Rejected (Error ''remote fault'')"
    "concat (batches (snd (processTranslation 3 demoEnv [''a'', ''fault'', ''c''] demoTranslateConfig))) =
     [0, 1]"
    by (simp_all add: demo_translate_run batches_append batches_translateEvents eval_nat_numeral
        del: translateLoop.simps(2))
  have chained: "fst (processColorization 3 demoEnv [''a'', ''fault'', ''c''] demoConfig demoResolver) =
     Rejected (Error ''remote fault'')"
    "concat (batches (trace (snd (processColorization 3 demoEnv [''a'', ''fault'', ''c''] demoConfig
     demoResolver)))) = [0, 1]"
    by (simp_all add: demo_run eval_nat_numeral batches_append batches_requestEvents)
  show ?thesis
    unfolding flat chained by (simp add: demoConfig_def demoTranslateConfig_def)
qed

end
